theory Spec2Isabelle
  imports Main "HOL-Library.Word"
begin

unbundle bit_operations_syntax

section \<open>Machine integers and byte order\<close>

text \<open>
  The program runs on Windows, a little-endian platform: the winsock conversions
  \<^verbatim>\<open>htons\<close>, \<^verbatim>\<open>ntohs\<close>, \<^verbatim>\<open>htonl\<close> and \<^verbatim>\<open>ntohl\<close> reverse the bytes of their argument.
  Header fields hold the value as the machine reads it from the wire, so the number a
  field denotes is \<open>ntohs\<close> or \<open>ntohl\<close> of the field.
\<close>

type_synonym UINT8 = "8 word"
type_synonym UINT16 = "16 word"
type_synonym UINT32 = "32 word"

definition htons :: "UINT16 \<Rightarrow> UINT16" where
  "htons x = push_bit 8 x OR drop_bit 8 x"

definition ntohs :: "UINT16 \<Rightarrow> UINT16" where
  "ntohs x = push_bit 8 x OR drop_bit 8 x"

definition htonl :: "UINT32 \<Rightarrow> UINT32" where
  "htonl x =
     push_bit 24 x OR push_bit 8 (x AND 0xFF00) OR (drop_bit 8 x AND 0xFF00) OR drop_bit 24 x"

definition ntohl :: "UINT32 \<Rightarrow> UINT32" where
  "ntohl x =
     push_bit 24 x OR push_bit 8 (x AND 0xFF00) OR (drop_bit 8 x AND 0xFF00) OR drop_bit 24 x"

section \<open>Packet headers\<close>

text \<open>
  The header layouts come from \<^verbatim>\<open>windivert.h\<close>: an IPv4 header and a TCP header of
  20 bytes each, so \<^verbatim>\<open>sizeof(PACKET)\<close> and \<^verbatim>\<open>sizeof(DATAPACKET)\<close> are both 40 (the
  payload of a \<^verbatim>\<open>DATAPACKET\<close> is a flexible array member).
\<close>

record WINDIVERT_IPHDR =
  ip_HdrLength :: "4 word"
  ip_Version :: "4 word"
  ip_TOS :: UINT8
  ip_Length :: UINT16
  ip_Id :: UINT16
  ip_FragOff0 :: UINT16
  ip_TTL :: UINT8
  ip_Protocol :: UINT8
  ip_Checksum :: UINT16
  ip_SrcAddr :: UINT32
  ip_DstAddr :: UINT32

record WINDIVERT_TCPHDR =
  tcp_SrcPort :: UINT16
  tcp_DstPort :: UINT16
  tcp_SeqNum :: UINT32
  tcp_AckNum :: UINT32
  tcp_Reserved1 :: "4 word"
  tcp_HdrLength :: "4 word"
  tcp_Fin :: "1 word"
  tcp_Syn :: "1 word"
  tcp_Rst :: "1 word"
  tcp_Psh :: "1 word"
  tcp_Ack :: "1 word"
  tcp_Urg :: "1 word"
  tcp_Reserved2 :: "2 word"
  tcp_Window :: UINT16
  tcp_Checksum :: UINT16
  tcp_UrgPtr :: UINT16

record PACKET =
  ip :: WINDIVERT_IPHDR
  tcp :: WINDIVERT_TCPHDR

record DATAPACKET =
  header :: PACKET
  data :: string

record WINDIVERT_ADDRESS =
  IfIdx :: UINT32
  SubIfIdx :: UINT32
  Direction :: UINT8

definition sizeof_PACKET :: nat where
  "sizeof_PACKET = 40"

definition sizeof_DATAPACKET :: nat where
  "sizeof_DATAPACKET = 40"

definition IPPROTO_TCP :: UINT8 where
  "IPPROTO_TCP = 6"

text \<open>\<^verbatim>\<open>memset(packet, 0, sizeof(PACKET))\<close>: every field of both headers is zero.\<close>

definition zero_PACKET :: PACKET where
  "zero_PACKET =
     \<lparr> ip = \<lparr> ip_HdrLength = 0, ip_Version = 0, ip_TOS = 0, ip_Length = 0, ip_Id = 0,
              ip_FragOff0 = 0, ip_TTL = 0, ip_Protocol = 0, ip_Checksum = 0,
              ip_SrcAddr = 0, ip_DstAddr = 0 \<rparr>,
       tcp = \<lparr> tcp_SrcPort = 0, tcp_DstPort = 0, tcp_SeqNum = 0, tcp_AckNum = 0,
               tcp_Reserved1 = 0, tcp_HdrLength = 0, tcp_Fin = 0, tcp_Syn = 0, tcp_Rst = 0,
               tcp_Psh = 0, tcp_Ack = 0, tcp_Urg = 0, tcp_Reserved2 = 0, tcp_Window = 0,
               tcp_Checksum = 0, tcp_UrgPtr = 0 \<rparr> \<rparr>"

text \<open>
  \<^verbatim>\<open>PacketInit\<close> overwrites the whole packet it is given, so the packet it leaves
  behind does not depend on the one it found.
\<close>

definition PacketInit :: "PACKET \<Rightarrow> PACKET" where
  "PacketInit packet =
     (let p0 = zero_PACKET;
          i = ip p0;
          i = i\<lparr>ip_Version := 4\<rparr>;
          i = i\<lparr>ip_HdrLength := 5\<rparr>;
          i = i\<lparr>ip_Length := htons (of_nat sizeof_PACKET)\<rparr>;
          i = i\<lparr>ip_TTL := 64\<rparr>;
          i = i\<lparr>ip_Protocol := IPPROTO_TCP\<rparr>;
          t = (tcp p0)\<lparr>tcp_HdrLength := 5\<rparr>
      in p0\<lparr>ip := i, tcp := t\<rparr>)"

section \<open>C strings\<close>

text \<open>
  A \<^verbatim>\<open>char *\<close> is modelled by the list of bytes readable from the pointer. A C string
  ends at its first NUL byte; the end of the list counts as a terminator too.
\<close>

definition NUL :: char where
  "NUL = CHR 0x00"

definition CR :: char where
  "CR = CHR 0x0D"

definition LF :: char where
  "LF = CHR 0x0A"

definition cstr :: "string \<Rightarrow> string" where
  "cstr s = takeWhile (\<lambda>c. c \<noteq> NUL) s"

definition strlen :: "string \<Rightarrow> nat" where
  "strlen s = length (cstr s)"

text \<open>
  \<^verbatim>\<open>strcpy\<close> and \<^verbatim>\<open>strcat\<close> into a buffer of \<open>sz\<close> bytes. Neither checks the
  size of its destination: writing the string and its terminator past the end of the
  buffer is undefined behaviour, which the model reports as \<open>None\<close>. A buffer is
  represented by the C string it holds.
\<close>

definition strcpy :: "nat \<Rightarrow> string \<Rightarrow> string option" where
  "strcpy sz src = (if strlen src < sz then Some (cstr src) else None)"

definition strcat :: "nat \<Rightarrow> string \<Rightarrow> string \<Rightarrow> string option" where
  "strcat sz dst src =
     (if strlen dst + strlen src < sz then Some (cstr dst @ cstr src) else None)"

section \<open>Start-up: the redirect response and the packet templates\<close>

definition response_head :: string where
  "response_head =
     ''HTTP/1.1 302 Found'' @ [CR, LF] @
     ''Content-Type: text/html; charset=utf-8'' @ [CR, LF] @
     ''Location: http://''"

definition response_tail :: string where
  "response_tail =
     [CR, LF] @ ''Date: Mon, 09 Jul 2018 06:27:33 GMT'' @ [CR, LF] @
     ''Content-Length:3'' @ [CR, LF] @ [CR, LF] @ ''302''"

text \<open>
  \<^verbatim>\<open>responseData\<close> is a buffer of \<^verbatim>\<open>1024*2\<close> bytes, emptied and then filled by three
  calls of \<^verbatim>\<open>strcat\<close>. The replacement host is first copied from \<^verbatim>\<open>argv[3]\<close> into the
  global \<^verbatim>\<open>new_host_url[1024]\<close>.
\<close>

definition build_responseData :: "string \<Rightarrow> string option" where
  "build_responseData argv3 =
     (case strcpy 1024 argv3 of
        None \<Rightarrow> None
      | Some new_host_url \<Rightarrow>
          (case strcat (1024 * 2) [] response_head of
             None \<Rightarrow> None
           | Some r1 \<Rightarrow>
               (case strcat (1024 * 2) r1 new_host_url of
                  None \<Rightarrow> None
                | Some r2 \<Rightarrow> strcat (1024 * 2) r2 response_tail)))"

text \<open>The variables of \<^verbatim>\<open>main\<close> that live across iterations of the main loop.\<close>

record main_vars =
  reset :: PACKET
  finish :: PACKET
  blockpage :: DATAPACKET
  blockpage_len :: UINT16
  responseData :: string

text \<open>
  Lines 130 to 149: the three pre-fabricated packets. \<open>port\<close> is the global \<^verbatim>\<open>int port\<close>
  (the value of \<^verbatim>\<open>atoi(argv[1])\<close>); \<^verbatim>\<open>htons\<close> takes a \<^verbatim>\<open>u_short\<close>, so the \<^verbatim>\<open>int\<close> is
  converted modulo \<open>2 ^ 16\<close>. Allocation is taken to succeed.
\<close>

definition init_main_vars :: "int \<Rightarrow> string \<Rightarrow> main_vars" where
  "init_main_vars port rd =
     (let len = (of_nat (sizeof_DATAPACKET + strlen rd) :: UINT16);
          h = PacketInit zero_PACKET;
          h = h\<lparr>ip := (ip h)\<lparr>ip_Length := htons len\<rparr>\<rparr>;
          h = h\<lparr>tcp := (tcp h)\<lparr>tcp_SrcPort := htons (of_int port)\<rparr>\<rparr>;
          h = h\<lparr>tcp := (tcp h)\<lparr>tcp_Psh := 1\<rparr>\<rparr>;
          h = h\<lparr>tcp := (tcp h)\<lparr>tcp_Ack := 1\<rparr>\<rparr>;
          bp = \<lparr> header = h, data = cstr rd \<rparr>;
          r = PacketInit zero_PACKET;
          r = r\<lparr>tcp := (tcp r)\<lparr>tcp_Rst := 1\<rparr>\<rparr>;
          r = r\<lparr>tcp := (tcp r)\<lparr>tcp_Ack := 1\<rparr>\<rparr>;
          f = PacketInit zero_PACKET;
          f = f\<lparr>tcp := (tcp f)\<lparr>tcp_Fin := 1\<rparr>\<rparr>;
          f = f\<lparr>tcp := (tcp f)\<lparr>tcp_Ack := 1\<rparr>\<rparr>
      in \<lparr> reset = r, finish = f, blockpage = bp, blockpage_len = len, responseData = rd \<rparr>)"

text \<open>
  Lines 109 to 149 as a whole, from the value of \<^verbatim>\<open>atoi(argv[1])\<close>, \<^verbatim>\<open>argv[2]\<close> and
  \<^verbatim>\<open>argv[3]\<close>: the global \<^verbatim>\<open>target_url[1024]\<close> and the variables of \<^verbatim>\<open>main\<close>.
\<close>

definition startup :: "int \<Rightarrow> string \<Rightarrow> string \<Rightarrow> (string \<times> main_vars) option" where
  "startup port argv2 argv3 =
     (case strcpy 1024 argv2 of
        None \<Rightarrow> None
      | Some target_url \<Rightarrow>
          (case build_responseData argv3 of
             None \<Rightarrow> None
           | Some rd \<Rightarrow> Some (target_url, init_main_vars port rd)))"

section \<open>Hijacking a matched connection\<close>

text \<open>
  What \<^verbatim>\<open>WinDivertHelperParsePacket\<close> hands to the loop for an intercepted packet: the
  two headers, the payload and its length.
\<close>

record observation =
  ip_header :: WINDIVERT_IPHDR
  tcp_header :: WINDIVERT_TCPHDR
  payload :: string
  payload_len :: UINT32

text \<open>
  \<^verbatim>\<open>WinDivertHelperCalcChecksums\<close> belongs to the WinDivert library. It clears both
  checksum fields, computes the IPv4 header checksum and the TCP checksum over the
  packet it is given and stores them. The checksum function itself is the parameter
  \<open>csum\<close>, from the headers (checksum fields cleared) and the payload to the pair of
  checksums.
\<close>

type_synonym checksums = "PACKET \<Rightarrow> string \<Rightarrow> UINT16 \<times> UINT16"

definition clear_checksums :: "PACKET \<Rightarrow> PACKET" where
  "clear_checksums p =
     p\<lparr>ip := (ip p)\<lparr>ip_Checksum := 0\<rparr>, tcp := (tcp p)\<lparr>tcp_Checksum := 0\<rparr>\<rparr>"

definition WinDivertHelperCalcChecksums :: "checksums \<Rightarrow> DATAPACKET \<Rightarrow> DATAPACKET" where
  "WinDivertHelperCalcChecksums csum pkt =
     (let p0 = clear_checksums (header pkt);
          cs = csum p0 (data pkt)
      in pkt\<lparr>header := p0\<lparr>ip := (ip p0)\<lparr>ip_Checksum := fst cs\<rparr>,
                            tcp := (tcp p0)\<lparr>tcp_Checksum := snd cs\<rparr>\<rparr>\<rparr>)"

text \<open>A header-only packet is a packet with no payload.\<close>

definition CalcChecksums_PACKET :: "checksums \<Rightarrow> PACKET \<Rightarrow> PACKET" where
  "CalcChecksums_PACKET csum p =
     header (WinDivertHelperCalcChecksums csum \<lparr> header = p, data = [] \<rparr>)"

text \<open>A call of \<^verbatim>\<open>WinDivertSend\<close>: the packet, its length in bytes and the address.\<close>

record sent =
  sent_packet :: DATAPACKET
  sent_len :: nat
  sent_addr :: WINDIVERT_ADDRESS

text \<open>The C operator \<^verbatim>\<open>!\<close> on a \<^verbatim>\<open>UINT8\<close>.\<close>

definition lnot :: "UINT8 \<Rightarrow> UINT8" where
  "lnot d = (if d = 0 then 1 else 0)"

text \<open>
  Lines 206 to 250, in the order of the source. The result of each \<^verbatim>\<open>WinDivertSend\<close>
  is only logged, so the three sends happen whatever their outcome. The templates are
  changed in place and keep their values for the next packet.
\<close>

definition hijack ::
  "checksums \<Rightarrow> int \<Rightarrow> observation \<Rightarrow> WINDIVERT_ADDRESS \<Rightarrow> main_vars \<Rightarrow> sent list \<times> main_vars"
where
  "hijack csum port ob addr m =
     (let ip_h = ip_header ob; tcp_h = tcp_header ob;
          r = reset m;
          r = r\<lparr>ip := (ip r)\<lparr>ip_SrcAddr := ip_SrcAddr ip_h\<rparr>\<rparr>;
          r = r\<lparr>ip := (ip r)\<lparr>ip_DstAddr := ip_DstAddr ip_h\<rparr>\<rparr>;
          r = r\<lparr>tcp := (tcp r)\<lparr>tcp_SrcPort := tcp_SrcPort tcp_h\<rparr>\<rparr>;
          r = r\<lparr>tcp := (tcp r)\<lparr>tcp_DstPort := htons (of_int port)\<rparr>\<rparr>;
          r = r\<lparr>tcp := (tcp r)\<lparr>tcp_SeqNum := tcp_SeqNum tcp_h\<rparr>\<rparr>;
          r = r\<lparr>tcp := (tcp r)\<lparr>tcp_AckNum := tcp_AckNum tcp_h\<rparr>\<rparr>;
          r = CalcChecksums_PACKET csum r;
          send1 = \<lparr> sent_packet = \<lparr> header = r, data = [] \<rparr>, sent_len = sizeof_PACKET,
                    sent_addr = addr \<rparr>;
          b = header (blockpage m);
          b = b\<lparr>ip := (ip b)\<lparr>ip_SrcAddr := ip_DstAddr ip_h\<rparr>\<rparr>;
          b = b\<lparr>ip := (ip b)\<lparr>ip_DstAddr := ip_SrcAddr ip_h\<rparr>\<rparr>;
          b = b\<lparr>tcp := (tcp b)\<lparr>tcp_DstPort := tcp_SrcPort tcp_h\<rparr>\<rparr>;
          b = b\<lparr>tcp := (tcp b)\<lparr>tcp_SeqNum := tcp_AckNum tcp_h\<rparr>\<rparr>;
          b = b\<lparr>tcp := (tcp b)\<lparr>tcp_AckNum := htonl (ntohl (tcp_SeqNum tcp_h) + payload_len ob)\<rparr>\<rparr>;
          addr = addr\<lparr>Direction := lnot (Direction addr)\<rparr>;
          bp = WinDivertHelperCalcChecksums csum ((blockpage m)\<lparr>header := b\<rparr>);
          send2 = \<lparr> sent_packet = bp, sent_len = unat (blockpage_len m), sent_addr = addr \<rparr>;
          f = finish m;
          f = f\<lparr>ip := (ip f)\<lparr>ip_SrcAddr := ip_DstAddr ip_h\<rparr>\<rparr>;
          f = f\<lparr>ip := (ip f)\<lparr>ip_DstAddr := ip_SrcAddr ip_h\<rparr>\<rparr>;
          f = f\<lparr>tcp := (tcp f)\<lparr>tcp_SrcPort := htons (of_int port)\<rparr>\<rparr>;
          f = f\<lparr>tcp := (tcp f)\<lparr>tcp_DstPort := tcp_SrcPort tcp_h\<rparr>\<rparr>;
          f = f\<lparr>tcp := (tcp f)\<lparr>tcp_SeqNum :=
                  htonl (ntohl (tcp_AckNum tcp_h) + of_nat (strlen (responseData m)))\<rparr>\<rparr>;
          f = f\<lparr>tcp := (tcp f)\<lparr>tcp_AckNum := htonl (ntohl (tcp_SeqNum tcp_h) + payload_len ob)\<rparr>\<rparr>;
          f = CalcChecksums_PACKET csum f;
          send3 = \<lparr> sent_packet = \<lparr> header = f, data = [] \<rparr>, sent_len = sizeof_PACKET,
                    sent_addr = addr \<rparr>
      in ([send1, send2, send3], m\<lparr>reset := r, blockpage := bp, finish := f\<rparr>))"

text \<open>
  The variables of \<^verbatim>\<open>main\<close> after the matched packets \<open>obs\<close> have been handled, one after
  the other, starting from \<open>m\<close>.
\<close>

fun after_hijacks ::
  "checksums \<Rightarrow> int \<Rightarrow> main_vars \<Rightarrow> (observation \<times> WINDIVERT_ADDRESS) list \<Rightarrow> main_vars"
where
  "after_hijacks csum port m [] = m"
| "after_hijacks csum port m (oa # obs) =
     after_hijacks csum port (snd (hijack csum port (fst oa) (snd oa) m)) obs"

section \<open>The HTTP request classifier\<close>

subsection \<open>Case-insensitive comparison\<close>

text \<open>
  \<^verbatim>\<open>_stricmp\<close> and \<^verbatim>\<open>_strnicmp\<close> compare after \<^verbatim>\<open>tolower\<close>; the program never sets a
  locale, so only the letters \<open>A\<close> to \<open>Z\<close> are changed. \<open>deref\<close> reads the byte a pointer
  points at. The comparison stops at the first difference, at a terminator, or, for
  \<^verbatim>\<open>_strnicmp\<close>, after \<open>n\<close> bytes.
\<close>

definition tolower :: "char \<Rightarrow> char" where
  "tolower c =
     (if 65 \<le> (of_char c :: nat) \<and> (of_char c :: nat) \<le> 90
      then char_of (of_char c + 32 :: nat) else c)"

definition deref :: "string \<Rightarrow> char" where
  "deref s = (case s of [] \<Rightarrow> NUL | c # _ \<Rightarrow> c)"

fun stricmp :: "string \<Rightarrow> string \<Rightarrow> int" where
  "stricmp [] s2 = int (of_char (tolower NUL)) - int (of_char (tolower (deref s2)))"
| "stricmp (c # s1) s2 =
     (let c1 = tolower c; c2 = tolower (deref s2)
      in if c1 \<noteq> c2 then int (of_char c1) - int (of_char c2)
         else if c1 = NUL then 0
         else stricmp s1 (tl s2))"

fun strnicmp :: "string \<Rightarrow> string \<Rightarrow> nat \<Rightarrow> int" where
  "strnicmp s1 s2 0 = 0"
| "strnicmp s1 s2 (Suc n) =
     (let c1 = tolower (deref s1); c2 = tolower (deref s2)
      in if c1 \<noteq> c2 then int (of_char c1) - int (of_char c2)
         else if c1 = NUL then 0
         else strnicmp (tl s1) (tl s2) n)"

subsection \<open>The parser and its callbacks\<close>

text \<open>
  The streaming parser (\<^verbatim>\<open>http_parser.h\<close>) is a library outside this program. The
  program sees it through the callbacks it makes while \<^verbatim>\<open>http_parser_execute\<close> runs:
  \<^verbatim>\<open>on_url\<close>, \<^verbatim>\<open>on_header_field\<close>, \<^verbatim>\<open>on_header_value\<close> and \<^verbatim>\<open>on_headers_complete\<close> are the four
  the program registers. A data callback receives a pointer \<^verbatim>\<open>at\<close> into the payload and a
  \<^verbatim>\<open>length\<close>; the event records the \<^verbatim>\<open>length\<close> bytes it designates and the bytes that
  follow them in memory, so \<^verbatim>\<open>at\<close> is their concatenation.

  The parser is re-initialised by \<^verbatim>\<open>http_parser_init\<close> at every call and every callback
  of the program returns 0, so the callbacks made are a function of the bytes parsed:
  the parameter \<open>parser\<close> of the model.
\<close>

datatype event =
    on_url string string
  | on_header_field string string
  | on_header_value string string
  | on_headers_complete

type_synonym http_parser = "string \<Rightarrow> event list"

text \<open>
  The globals the classifier writes. \<^verbatim>\<open>char temp_host[1024]\<close> is a store from index
  to byte; a write at an index of 1024 or more is outside the array and makes the
  model fail with \<open>None\<close>, as does a \<^verbatim>\<open>memcpy\<close> that reads more bytes than the source has.
\<close>

record classifier =
  temp_header_complete :: bool
  temp_is_hostheader :: bool
  temp_host :: "nat \<Rightarrow> char"

definition sizeof_temp_host :: nat where
  "sizeof_temp_host = 1024"

definition initial_classifier :: classifier where
  "initial_classifier =
     \<lparr> temp_header_complete = False, temp_is_hostheader = False, temp_host = (\<lambda>i. NUL) \<rparr>"

definition store_temp_host :: "(nat \<Rightarrow> char) \<Rightarrow> nat \<Rightarrow> char \<Rightarrow> (nat \<Rightarrow> char) option" where
  "store_temp_host buf i c = (if i < sizeof_temp_host then Some (buf(i := c)) else None)"

definition memcpy_temp_host :: "(nat \<Rightarrow> char) \<Rightarrow> string \<Rightarrow> nat \<Rightarrow> (nat \<Rightarrow> char) option" where
  "memcpy_temp_host buf src n =
     (if n \<le> sizeof_temp_host \<and> n \<le> length src
      then Some (\<lambda>i. if i < n then src ! i else buf i) else None)"

text \<open>The array read through a \<^verbatim>\<open>char *\<close>: its 1024 bytes in order.\<close>

definition temp_host_ptr :: "(nat \<Rightarrow> char) \<Rightarrow> string" where
  "temp_host_ptr buf = map buf [0..<sizeof_temp_host]"

definition my_url_callback :: "classifier \<Rightarrow> string \<Rightarrow> nat \<Rightarrow> classifier option" where
  "my_url_callback st at len = Some st"

definition my_header_field_callback :: "classifier \<Rightarrow> string \<Rightarrow> nat \<Rightarrow> classifier option" where
  "my_header_field_callback st at len =
     (if strnicmp at ''host'' 4 = 0
      then Some (st\<lparr>temp_is_hostheader := True\<rparr>)
      else Some (st\<lparr>temp_is_hostheader := False\<rparr>))"

definition my_header_value_callback :: "classifier \<Rightarrow> string \<Rightarrow> nat \<Rightarrow> classifier option" where
  "my_header_value_callback st at len =
     (if temp_is_hostheader st = True then
        (let len = (if len \<ge> 1024 then 1023 else len)
         in case memcpy_temp_host (temp_host st) at len of
              None \<Rightarrow> None
            | Some b \<Rightarrow>
                (case store_temp_host b len NUL of
                   None \<Rightarrow> None
                 | Some b \<Rightarrow> Some (st\<lparr>temp_host := b, temp_is_hostheader := False\<rparr>)))
      else Some st)"

definition my_headers_complete_callback :: "classifier \<Rightarrow> classifier option" where
  "my_headers_complete_callback st = Some (st\<lparr>temp_header_complete := True\<rparr>)"

fun callback :: "classifier \<Rightarrow> event \<Rightarrow> classifier option" where
  "callback st (on_url s rest) = my_url_callback st (s @ rest) (length s)"
| "callback st (on_header_field s rest) = my_header_field_callback st (s @ rest) (length s)"
| "callback st (on_header_value s rest) = my_header_value_callback st (s @ rest) (length s)"
| "callback st on_headers_complete = my_headers_complete_callback st"

fun run_callbacks :: "classifier \<Rightarrow> event list \<Rightarrow> classifier option" where
  "run_callbacks st [] = Some st"
| "run_callbacks st (e # es) =
     (case callback st e of None \<Rightarrow> None | Some st' \<Rightarrow> run_callbacks st' es)"

text \<open>
  \<^verbatim>\<open>http_parser_execute\<close> parses the first \<open>len\<close> bytes of the data. Its return value,
  the number of bytes consumed, is stored in \<^verbatim>\<open>nparsed\<close> and never read.
\<close>

definition http_parser_execute ::
  "http_parser \<Rightarrow> classifier \<Rightarrow> string \<Rightarrow> UINT16 \<Rightarrow> classifier option" where
  "http_parser_execute parser st dat len = run_callbacks st (parser (take (unat len) dat))"

text \<open>
  \<^verbatim>\<open>HttpRequestPayloadMatch\<close>. \<open>target_url\<close> is the global of that name, written once at
  start-up. The result is the value returned and the globals left behind.
\<close>

definition HttpRequestPayloadMatch ::
  "http_parser \<Rightarrow> string \<Rightarrow> string \<Rightarrow> UINT16 \<Rightarrow> classifier \<Rightarrow> (bool \<times> classifier) option"
where
  "HttpRequestPayloadMatch parser target_url dat len st =
     (let st = st\<lparr>temp_header_complete := False\<rparr>;
          st = st\<lparr>temp_is_hostheader := False\<rparr>
      in case store_temp_host (temp_host st) 0 NUL of
           None \<Rightarrow> None
         | Some b \<Rightarrow>
             (case http_parser_execute parser (st\<lparr>temp_host := b\<rparr>) dat len of
                None \<Rightarrow> None
              | Some st \<Rightarrow>
                  if temp_header_complete st = True then
                    if stricmp target_url (temp_host_ptr (temp_host st)) = 0 then Some (True, st)
                    else Some (False, st)
                  else Some (False, st)))"

section \<open>One iteration of the main loop\<close>

text \<open>
  \<open>recv\<close> is what \<^verbatim>\<open>WinDivertRecv\<close> delivered (\<open>None\<close> when it failed), and
  \<open>ParsePacket\<close> stands for \<^verbatim>\<open>WinDivertHelperParsePacket\<close>. A packet that does not parse
  is reinjected without being classified; a packet that does not match is reinjected
  unchanged; a matched packet is answered by the three forged packets.
\<close>

datatype transmitted =
    Reinjected string nat WINDIVERT_ADDRESS
  | Forged sent

definition main_loop_body ::
  "http_parser \<Rightarrow> checksums \<Rightarrow> (string \<Rightarrow> nat \<Rightarrow> observation option) \<Rightarrow> int \<Rightarrow> string \<Rightarrow>
   (string \<times> nat \<times> WINDIVERT_ADDRESS) option \<Rightarrow> main_vars \<times> classifier \<Rightarrow>
   (transmitted list \<times> main_vars \<times> classifier) option"
where
  "main_loop_body parser csum ParsePacket port target_url recv s =
     (case recv of
        None \<Rightarrow> Some ([], s)
      | Some (packet, packet_len, addr) \<Rightarrow>
          (case ParsePacket packet packet_len of
             None \<Rightarrow> Some ([Reinjected packet packet_len addr], s)
           | Some ob \<Rightarrow>
               (case HttpRequestPayloadMatch parser target_url (payload ob)
                       (ucast (payload_len ob)) (snd s) of
                  None \<Rightarrow> None
                | Some (matched, st) \<Rightarrow>
                    if \<not> matched then Some ([Reinjected packet packet_len addr], fst s, st)
                    else Some (map Forged (fst (hijack csum port ob addr (fst s))),
                               snd (hijack csum port ob addr (fst s)), st))))"

section \<open>Vocabulary of the properties\<close>

subsection \<open>The packets handed to the transport\<close>

definition RST_sent :: "sent list \<Rightarrow> PACKET" where
  "RST_sent sends = header (sent_packet (sends ! 0))"

definition Redirect_sent :: "sent list \<Rightarrow> DATAPACKET" where
  "Redirect_sent sends = sent_packet (sends ! 1)"

definition FIN_sent :: "sent list \<Rightarrow> PACKET" where
  "FIN_sent sends = header (sent_packet (sends ! 2))"

text \<open>
  A packet carries valid checksums when its two checksum fields are the checksums of
  its own content: of its headers, checksum fields cleared, and its payload.
\<close>

definition checksums_valid :: "checksums \<Rightarrow> DATAPACKET \<Rightarrow> bool" where
  "checksums_valid csum p =
     (ip_Checksum (ip (header p)) = fst (csum (clear_checksums (header p)) (data p)) \<and>
      tcp_Checksum (tcp (header p)) = snd (csum (clear_checksums (header p)) (data p)))"

subsection \<open>Headers of a request, read off the parser's events\<close>

text \<open>
  A header line is a field event followed by its value event. The Host headers of a
  request are the lines whose field name is \<open>Host\<close> in any letter case.
\<close>

fun header_lines :: "event list \<Rightarrow> (string \<times> string) list" where
  "header_lines (on_header_field f r # on_header_value v r' # es) = (f, v) # header_lines es"
| "header_lines (e # es) = header_lines es"
| "header_lines [] = []"

definition Host_values :: "event list \<Rightarrow> string list" where
  "Host_values es = map snd (filter (\<lambda>l. map tolower (fst l) = ''host'') (header_lines es))"

text \<open>The events on which the field callback raises the is-host flag.\<close>

fun sets_is_hostheader :: "event \<Rightarrow> bool" where
  "sets_is_hostheader (on_header_field s rest) = (strnicmp (s @ rest) ''host'' 4 = 0)"
| "sets_is_hostheader e = False"

subsection \<open>The host captured from a request\<close>





subsection \<open>What the classifier's globals mean\<close>

text \<open>
  The captured host is the C string in \<^verbatim>\<open>temp_host\<close>. Of the globals, only the two flags
  and the captured host can influence a result; \<open>scan\<close> follows these three through
  the events, and \<open>verdict\<close> is the test at the end of \<^verbatim>\<open>HttpRequestPayloadMatch\<close> on them.
\<close>

definition captured :: "classifier \<Rightarrow> string" where
  "captured st = cstr (temp_host_ptr (temp_host st))"

definition abs_state :: "classifier \<Rightarrow> bool \<times> bool \<times> string" where
  "abs_state st = (temp_header_complete st, temp_is_hostheader st, captured st)"

fun scan :: "bool \<times> bool \<times> string \<Rightarrow> event list \<Rightarrow> bool \<times> bool \<times> string" where
  "scan a [] = a"
| "scan (c, h, v) (on_url s rest # es) = scan (c, h, v) es"
| "scan (c, h, v) (on_header_field s rest # es) = scan (c, strnicmp (s @ rest) ''host'' 4 = 0, v) es"
| "scan (c, h, v) (on_header_value s rest # es) =
     scan (c, False, if h then cstr (take 1023 s) else v) es"
| "scan (c, h, v) (on_headers_complete # es) = scan (True, h, v) es"

definition verdict :: "string \<Rightarrow> bool \<times> bool \<times> string \<Rightarrow> bool" where
  "verdict target_url a = (fst a \<and> map tolower (cstr target_url) = map tolower (snd (snd a)))"

subsection \<open>Framing of an HTTP response\<close>

text \<open>
  Readers of HTTP differ on what ends a line: CR LF by the grammar, and in practice
  also a lone LF or a lone CR. The reader modelled here accepts all three.
  \<open>after_eol\<close> gives the text after the line terminator a text begins with. The header
  block ends at the first empty line, a line terminator that follows a line
  terminator; the body is what follows. The header block is a sequence of lines, and
  the declared body length is the decimal number of its only \<open>Content-Length\<close> line.
\<close>

fun after_eol :: "string \<Rightarrow> string option" where
  "after_eol (c # d # cs) =
     (if c = CR \<and> d = LF then Some cs else if c = CR \<or> c = LF then Some (d # cs) else None)"
| "after_eol [c] = (if c = CR \<or> c = LF then Some [] else None)"
| "after_eol [] = None"

fun http_body :: "string \<Rightarrow> string option" where
  "http_body [] = None"
| "http_body (c # cs) =
     (case after_eol (c # cs) of
        None \<Rightarrow> http_body cs
      | Some t \<Rightarrow> (case after_eol t of None \<Rightarrow> http_body cs | Some b \<Rightarrow> Some b))"

fun http_head :: "string \<Rightarrow> string" where
  "http_head [] = []"
| "http_head (c # cs) =
     (case after_eol (c # cs) of
        None \<Rightarrow> c # http_head cs
      | Some t \<Rightarrow> (case after_eol t of None \<Rightarrow> c # http_head cs | Some b \<Rightarrow> []))"

definition cons_line :: "char \<Rightarrow> string list \<Rightarrow> string list" where
  "cons_line c ls = (case ls of [] \<Rightarrow> [[c]] | l # ls' \<Rightarrow> (c # l) # ls')"

fun text_lines :: "string \<Rightarrow> string list" where
  "text_lines (c # d # cs) =
     (if c = CR \<and> d = LF then [] # text_lines cs
      else if c = CR \<or> c = LF then [] # text_lines (d # cs)
      else cons_line c (text_lines (d # cs)))"
| "text_lines [c] = (if c = CR \<or> c = LF then [[], []] else [[c]])"
| "text_lines [] = [[]]"

fun decimal :: "nat \<Rightarrow> string \<Rightarrow> nat option" where
  "decimal n [] = Some n"
| "decimal n (c # cs) =
     (if 48 \<le> (of_char c :: nat) \<and> (of_char c :: nat) \<le> 57
      then decimal (10 * n + (of_char c - 48)) cs else None)"

definition Content_Length :: "string list \<Rightarrow> nat option" where
  "Content_Length ls =
     (case filter (\<lambda>l. take 15 l = ''Content-Length:'') ls of
        [l] \<Rightarrow> (if drop 15 l = [] then None else decimal 0 (drop 15 l))
      | _ \<Rightarrow> None)"

subsection \<open>Example requests and the events the parser reports for them\<close>

abbreviation (input) request_blocked :: string where
  "request_blocked \<equiv> ''GET / HTTP/1.1'' @ [CR, LF] @ ''Host: BLOCKED.example'' @ [CR, LF, CR, LF]"


abbreviation (input) request_other :: string where
  "request_other \<equiv> ''GET / HTTP/1.1'' @ [CR, LF] @ ''Host: other.example'' @ [CR, LF, CR, LF]"

abbreviation (input) events_other :: "event list" where
  "events_other \<equiv>
     [on_url ''/'' ('' HTTP/1.1'' @ [CR, LF] @ ''Host: other.example'' @ [CR, LF, CR, LF]),
      on_header_field ''Host'' ('': other.example'' @ [CR, LF, CR, LF]),
      on_header_value ''other.example'' [CR, LF, CR, LF],
      on_headers_complete]"

abbreviation (input) request_no_host :: string where
  "request_no_host \<equiv> ''GET / HTTP/1.1'' @ [CR, LF, CR, LF]"

abbreviation (input) events_no_host :: "event list" where
  "events_no_host \<equiv> [on_url ''/'' ('' HTTP/1.1'' @ [CR, LF, CR, LF]), on_headers_complete]"

abbreviation (input) request_hostname :: string where
  "request_hostname \<equiv> ''GET / HTTP/1.1'' @ [CR, LF] @ ''Hostname: x'' @ [CR, LF, CR, LF]"

abbreviation (input) events_hostname :: "event list" where
  "events_hostname \<equiv>
     [on_url ''/'' ('' HTTP/1.1'' @ [CR, LF] @ ''Hostname: x'' @ [CR, LF, CR, LF]),
      on_header_field ''Hostname'' ('': x'' @ [CR, LF, CR, LF]),
      on_header_value ''x'' [CR, LF, CR, LF],
      on_headers_complete]"

abbreviation (input) request_unfinished :: string where
  "request_unfinished \<equiv> ''GET / HTTP/1.1'' @ [CR, LF] @ ''Host: blocked.example'' @ [CR, LF]"

abbreviation (input) events_unfinished :: "event list" where
  "events_unfinished \<equiv>
     [on_url ''/'' ('' HTTP/1.1'' @ [CR, LF] @ ''Host: blocked.example'' @ [CR, LF]),
      on_header_field ''Host'' ('': blocked.example'' @ [CR, LF]),
      on_header_value ''blocked.example'' [CR, LF]]"





abbreviation (input) request_cut :: string where
  "request_cut \<equiv> ''GET / HTTP/1.1'' @ [CR, LF] @ ''Host: blocked.exa''"

abbreviation (input) events_cut :: "event list" where
  "events_cut \<equiv>
     [on_url ''/'' ('' HTTP/1.1'' @ [CR, LF] @ ''Host: blocked.exa''),
      on_header_field ''Host'' '': blocked.exa'',
      on_header_value ''blocked.exa'' []]"

abbreviation (input) observed_example :: observation where
  "observed_example \<equiv>
     \<lparr> ip_header = (ip zero_PACKET)\<lparr>ip_SrcAddr := htonl 0xC0A80002, ip_DstAddr := htonl 0x5DB8D822\<rparr>,
       tcp_header = (tcp zero_PACKET)\<lparr>tcp_SrcPort := htons 49152, tcp_DstPort := htons 80,
                      tcp_SeqNum := htonl 1000, tcp_AckNum := htonl 4000\<rparr>,
       payload = request_blocked,
       payload_len = 41 \<rparr>"

abbreviation (input) outbound :: WINDIVERT_ADDRESS where
  "outbound \<equiv> \<lparr> IfIdx = 0, SubIfIdx = 0, Direction = 0 \<rparr>"

section \<open>Byte order\<close>

lemma htons_htons: "htons (htons x) = x"
  unfolding htons_def
  apply (rule bit_word_eqI)
  apply (simp add: bit_or_iff bit_push_bit_iff bit_drop_bit_eq)
  apply (auto simp: bit_imp_le_length dest: bit_imp_le_length)
  done

lemma ntohs_htons: "ntohs (htons x) = x"
  using htons_htons [of x] by (simp add: ntohs_def htons_def)

lemma bit32_bound: "bit (x :: 32 word) n \<Longrightarrow> n < 32"
  using bit_imp_le_length [of x n] by simp

lemma mask_FF00: "(0xFF00 :: 32 word) = push_bit 8 (mask 8)"
  by (simp add: mask_eq_exp_minus_1)

lemma bit_htonl:
  "bit (htonl x) n \<longleftrightarrow>
     (24 \<le> n \<and> n < 32 \<and> bit x (n - 24)) \<or> (16 \<le> n \<and> n < 24 \<and> bit x (n - 8)) \<or>
     (8 \<le> n \<and> n < 16 \<and> bit x (n + 8)) \<or> (n < 8 \<and> bit x (n + 24))"
  unfolding htonl_def mask_FF00
  apply (simp add: bit_or_iff bit_and_iff bit_push_bit_iff bit_drop_bit_eq bit_mask_iff)
  apply (intro iffI; elim disjE conjE)
  apply (simp_all add: add.commute)
  apply (auto dest: bit32_bound)
  done

lemma htonl_htonl: "htonl (htonl x) = x"
proof (rule bit_word_eqI)
  fix n assume "n < LENGTH(32)"
  then consider "n < 8" | "8 \<le> n" "n < 16" | "16 \<le> n" "n < 24" | "24 \<le> n" "n < 32"
    by fastforce
  then show "bit (htonl (htonl x)) n = bit x n"
  proof cases
    case 1
    then have "bit (htonl (htonl x)) n = bit (htonl x) (n + 24)"
      by (auto simp: bit_htonl [of "htonl x" n])
    also from 1 have "\<dots> = bit x (n + 24 - 24)"
      by (auto simp: bit_htonl [of x "n + 24"])
    finally show ?thesis by simp
  next
    case 2
    then have "bit (htonl (htonl x)) n = bit (htonl x) (n + 8)"
      by (auto simp: bit_htonl [of "htonl x" n])
    also from 2 have "\<dots> = bit x (n + 8 - 8)"
      by (auto simp: bit_htonl [of x "n + 8"])
    finally show ?thesis by simp
  next
    case 3
    then have "bit (htonl (htonl x)) n = bit (htonl x) (n - 8)"
      by (auto simp: bit_htonl [of "htonl x" n])
    also from 3 have "\<dots> = bit x (n - 8 + 8)"
      by (auto simp: bit_htonl [of x "n - 8"])
    finally show ?thesis using 3 by simp
  next
    case 4
    then have "bit (htonl (htonl x)) n = bit (htonl x) (n - 24)"
      by (auto simp: bit_htonl [of "htonl x" n])
    also from 4 have "\<dots> = bit x (n - 24 + 24)"
      by (auto simp: bit_htonl [of x "n - 24"])
    finally show ?thesis using 4 by simp
  qed
qed

lemma ntohl_htonl: "ntohl (htonl x) = x"
  using htonl_htonl [of x] by (simp add: ntohl_def htonl_def)

section \<open>Stamping\<close>

lemma hijack_sends:
  "\<exists>s1 s2 s3. fst (hijack csum port ob addr m) = [s1, s2, s3]"
  by (simp add: hijack_def Let_def)

lemma hijack_keeps:
  "blockpage_len (snd (hijack csum port ob addr m)) = blockpage_len m"
  "responseData (snd (hijack csum port ob addr m)) = responseData m"
  "data (blockpage (snd (hijack csum port ob addr m))) = data (blockpage m)"
  "tcp_SrcPort (tcp (header (blockpage (snd (hijack csum port ob addr m))))) =
     tcp_SrcPort (tcp (header (blockpage m)))"
  by (simp_all add: hijack_def Let_def WinDivertHelperCalcChecksums_def clear_checksums_def)

lemma hijack_keeps_ip:
  "ip_Length (ip (header (blockpage (snd (hijack csum port ob addr m))))) =
     ip_Length (ip (header (blockpage m)))"
  "ip_FragOff0 (ip (header (blockpage (snd (hijack csum port ob addr m))))) =
     ip_FragOff0 (ip (header (blockpage m)))"
  by (simp_all add: hijack_def Let_def WinDivertHelperCalcChecksums_def clear_checksums_def)

lemma after_hijacks_keeps:
  "blockpage_len (after_hijacks csum port m prev) = blockpage_len m \<and>
   responseData (after_hijacks csum port m prev) = responseData m \<and>
   data (blockpage (after_hijacks csum port m prev)) = data (blockpage m) \<and>
   tcp_SrcPort (tcp (header (blockpage (after_hijacks csum port m prev)))) =
     tcp_SrcPort (tcp (header (blockpage m)))"
  by (induction prev arbitrary: m) (simp_all add: hijack_keeps)

lemma after_hijacks_keeps_ip:
  "ip_Length (ip (header (blockpage (after_hijacks csum port m prev)))) =
     ip_Length (ip (header (blockpage m))) \<and>
   ip_FragOff0 (ip (header (blockpage (after_hijacks csum port m prev)))) =
     ip_FragOff0 (ip (header (blockpage m)))"
  by (induction prev arbitrary: m) (simp_all add: hijack_keeps_ip)

lemma init_main_vars_fields:
  "blockpage_len (init_main_vars port rd) = of_nat (40 + strlen rd)"
  "responseData (init_main_vars port rd) = rd"
  "data (blockpage (init_main_vars port rd)) = cstr rd"
  "tcp_SrcPort (tcp (header (blockpage (init_main_vars port rd)))) = htons (of_int port)"
  by (simp_all add: init_main_vars_def Let_def sizeof_DATAPACKET_def)

lemma init_main_vars_ip:
  "ip_Length (ip (header (blockpage (init_main_vars port rd)))) = htons (of_nat (40 + strlen rd))"
  "ip_FragOff0 (ip (header (blockpage (init_main_vars port rd)))) = 0"
  by (simp_all add: init_main_vars_def Let_def sizeof_DATAPACKET_def PacketInit_def zero_PACKET_def)

lemma RST_fields:
  "ip_SrcAddr (ip (RST_sent (fst (hijack csum port ob addr m)))) = ip_SrcAddr (ip_header ob)"
  "ip_DstAddr (ip (RST_sent (fst (hijack csum port ob addr m)))) = ip_DstAddr (ip_header ob)"
  "tcp_SrcPort (tcp (RST_sent (fst (hijack csum port ob addr m)))) = tcp_SrcPort (tcp_header ob)"
  "tcp_DstPort (tcp (RST_sent (fst (hijack csum port ob addr m)))) = htons (of_int port)"
  "tcp_SeqNum (tcp (RST_sent (fst (hijack csum port ob addr m)))) = tcp_SeqNum (tcp_header ob)"
  "tcp_AckNum (tcp (RST_sent (fst (hijack csum port ob addr m)))) = tcp_AckNum (tcp_header ob)"
  by (simp_all add: hijack_def Let_def RST_sent_def CalcChecksums_PACKET_def
      WinDivertHelperCalcChecksums_def clear_checksums_def)

lemma Redirect_fields:
  "ip_SrcAddr (ip (header (Redirect_sent (fst (hijack csum port ob addr m))))) =
     ip_DstAddr (ip_header ob)"
  "ip_DstAddr (ip (header (Redirect_sent (fst (hijack csum port ob addr m))))) =
     ip_SrcAddr (ip_header ob)"
  "tcp_SrcPort (tcp (header (Redirect_sent (fst (hijack csum port ob addr m))))) =
     tcp_SrcPort (tcp (header (blockpage m)))"
  "tcp_DstPort (tcp (header (Redirect_sent (fst (hijack csum port ob addr m))))) =
     tcp_SrcPort (tcp_header ob)"
  "tcp_SeqNum (tcp (header (Redirect_sent (fst (hijack csum port ob addr m))))) =
     tcp_AckNum (tcp_header ob)"
  "tcp_AckNum (tcp (header (Redirect_sent (fst (hijack csum port ob addr m))))) =
     htonl (ntohl (tcp_SeqNum (tcp_header ob)) + payload_len ob)"
  "data (Redirect_sent (fst (hijack csum port ob addr m))) = data (blockpage m)"
  by (simp_all add: hijack_def Let_def Redirect_sent_def
      WinDivertHelperCalcChecksums_def clear_checksums_def)

lemma Redirect_sent_ip:
  "ip_Length (ip (header (Redirect_sent (fst (hijack csum port ob addr m))))) =
     ip_Length (ip (header (blockpage m)))"
  "ip_FragOff0 (ip (header (Redirect_sent (fst (hijack csum port ob addr m))))) =
     ip_FragOff0 (ip (header (blockpage m)))"
  "sent_len (fst (hijack csum port ob addr m) ! 0) = 40"
  "sent_len (fst (hijack csum port ob addr m) ! 1) = unat (blockpage_len m)"
  "sent_len (fst (hijack csum port ob addr m) ! 2) = 40"
  by (simp_all add: hijack_def Let_def Redirect_sent_def sizeof_PACKET_def
      WinDivertHelperCalcChecksums_def clear_checksums_def)

lemma FIN_fields:
  "ip_SrcAddr (ip (FIN_sent (fst (hijack csum port ob addr m)))) = ip_DstAddr (ip_header ob)"
  "ip_DstAddr (ip (FIN_sent (fst (hijack csum port ob addr m)))) = ip_SrcAddr (ip_header ob)"
  "tcp_SrcPort (tcp (FIN_sent (fst (hijack csum port ob addr m)))) = htons (of_int port)"
  "tcp_DstPort (tcp (FIN_sent (fst (hijack csum port ob addr m)))) = tcp_SrcPort (tcp_header ob)"
  "tcp_SeqNum (tcp (FIN_sent (fst (hijack csum port ob addr m)))) =
     htonl (ntohl (tcp_AckNum (tcp_header ob)) + of_nat (strlen (responseData m)))"
  "tcp_AckNum (tcp (FIN_sent (fst (hijack csum port ob addr m)))) =
     htonl (ntohl (tcp_SeqNum (tcp_header ob)) + payload_len ob)"
  by (simp_all add: hijack_def Let_def FIN_sent_def CalcChecksums_PACKET_def
      WinDivertHelperCalcChecksums_def clear_checksums_def)

text \<open>
  C1. Let an intercepted client-to-server packet have source address \<open>Cip\<close>, destination
  address \<open>Sip\<close>, source port \<open>Cpt\<close>, sequence number \<open>S\<close>, acknowledgment number \<open>A\<close>
  and payload length \<open>L\<close>, and let \<open>port\<close> be the configured port. Whatever packets
  were hijacked before it, three packets are stamped; the RST has source address
  \<open>Cip\<close>, destination address \<open>Sip\<close>, source port \<open>Cpt\<close>, destination port \<open>port\<close>,
  sequence number \<open>S\<close> and acknowledgment number \<open>A\<close>; the Redirect has source address
  \<open>Sip\<close>, destination address \<open>Cip\<close>, source port \<open>port\<close>, destination port \<open>Cpt\<close>,
  sequence number \<open>A\<close> and acknowledgment number \<open>S + L\<close> modulo \<open>2 ^ 32\<close>. The port
  travels in a 16-bit field, so it is \<open>port\<close> modulo \<open>2 ^ 16\<close>: the port itself for every
  valid port number.
\<close>

theorem C1_RST_and_Redirect_stamping:
  "let m = after_hijacks csum port (init_main_vars port rd) prev;
       sends = fst (hijack csum port ob addr m);
       rst = RST_sent sends;
       red = header (Redirect_sent sends);
       Cip = ip_SrcAddr (ip_header ob);
       Sip = ip_DstAddr (ip_header ob);
       Cpt = tcp_SrcPort (tcp_header ob);
       S = ntohl (tcp_SeqNum (tcp_header ob));
       A = ntohl (tcp_AckNum (tcp_header ob));
       L = payload_len ob
   in length sends = 3 \<and>
      ip_SrcAddr (ip rst) = Cip \<and> ip_DstAddr (ip rst) = Sip \<and>
      tcp_SrcPort (tcp rst) = Cpt \<and> uint (ntohs (tcp_DstPort (tcp rst))) = port mod 2 ^ 16 \<and>
      ntohl (tcp_SeqNum (tcp rst)) = S \<and> ntohl (tcp_AckNum (tcp rst)) = A \<and>
      ip_SrcAddr (ip red) = Sip \<and> ip_DstAddr (ip red) = Cip \<and>
      uint (ntohs (tcp_SrcPort (tcp red))) = port mod 2 ^ 16 \<and> tcp_DstPort (tcp red) = Cpt \<and>
      ntohl (tcp_SeqNum (tcp red)) = A \<and>
      ntohl (tcp_AckNum (tcp red)) = S + L \<and>
      unat (ntohl (tcp_AckNum (tcp red))) = (unat S + unat L) mod 2 ^ 32"
proof -
  have len: "length (fst (hijack csum port ob addr m)) = 3" for m
    using hijack_sends [of csum port ob addr m] by auto
  have p: "uint (ntohs (htons (word_of_int port))) = port mod 2 ^ 16"
    by (simp add: ntohs_htons uint_word_of_int)
  show ?thesis
    unfolding Let_def
    by (simp add: len RST_fields Redirect_fields after_hijacks_keeps init_main_vars_fields
        ntohl_htonl p unat_word_ariths)
qed

text \<open>
  C2. For the same packet the FIN has source address \<open>Sip\<close>, destination address
  \<open>Cip\<close>, source port \<open>port\<close>, destination port \<open>Cpt\<close>, a sequence number equal to the
  sequence number of the Redirect, which is \<open>A\<close>, plus the length of what the Redirect
  carries, and acknowledgment number \<open>S + L\<close> modulo \<open>2 ^ 32\<close>. What the Redirect carries
  is the whole of \<^verbatim>\<open>responseData\<close>, status line and header lines included. For
  \<open>S = 1000\<close>, \<open>A = 4000\<close> and \<open>L = 50\<close> the FIN has sequence number 4000 plus that
  length, and acknowledgment number 1050.
\<close>

theorem C2_FIN_stamping:
  "let m = after_hijacks csum port (init_main_vars port rd) prev;
       sends = fst (hijack csum port ob addr m);
       red = Redirect_sent sends;
       fin = FIN_sent sends;
       S = ntohl (tcp_SeqNum (tcp_header ob));
       A = ntohl (tcp_AckNum (tcp_header ob));
       L = payload_len ob;
       ob' = ob\<lparr>tcp_header := (tcp_header ob)\<lparr>tcp_SeqNum := htonl 1000, tcp_AckNum := htonl 4000\<rparr>,
                payload_len := 50\<rparr>;
       fin' = FIN_sent (fst (hijack csum port ob' addr m))
   in ip_SrcAddr (ip fin) = ip_DstAddr (ip_header ob) \<and>
      ip_DstAddr (ip fin) = ip_SrcAddr (ip_header ob) \<and>
      uint (ntohs (tcp_SrcPort (tcp fin))) = port mod 2 ^ 16 \<and>
      tcp_DstPort (tcp fin) = tcp_SrcPort (tcp_header ob) \<and>
      ntohl (tcp_SeqNum (tcp (header red))) = A \<and>
      data red = cstr rd \<and>
      ntohl (tcp_SeqNum (tcp fin)) =
        ntohl (tcp_SeqNum (tcp (header red))) + of_nat (length (data red)) \<and>
      unat (ntohl (tcp_SeqNum (tcp fin))) = (unat A + length (data red)) mod 2 ^ 32 \<and>
      ntohl (tcp_AckNum (tcp fin)) = S + L \<and>
      unat (ntohl (tcp_AckNum (tcp fin))) = (unat S + unat L) mod 2 ^ 32 \<and>
      ntohl (tcp_SeqNum (tcp fin')) = 4000 + of_nat (length (cstr rd)) \<and>
      ntohl (tcp_AckNum (tcp fin')) = 1050"
proof -
  have p: "uint (ntohs (htons (word_of_int port))) = port mod 2 ^ 16"
    by (simp add: ntohs_htons uint_word_of_int)
  have q: "(x + unat (word_of_nat n :: 32 word)) mod 4294967296 = (x + n) mod 4294967296"
    for x n
    by (simp add: unat_of_nat mod_add_right_eq)
  have r: "unat (ntohl (htonl (a + b))) = (unat a + unat b) mod 2 ^ 32" for a b
    by (simp add: ntohl_htonl unat_word_ariths)
  show ?thesis
    unfolding Let_def
    by (simp add: FIN_fields Redirect_fields after_hijacks_keeps init_main_vars_fields p q r)
      (simp add: ntohl_htonl strlen_def q)
qed

text \<open>
  C8. For every matched packet, each of the three packets handed to the transport
  carries the checksums of its own final content: the checksums are computed after the
  last per-connection field of the packet has been written, and nothing is written
  between the computation and the send.
\<close>

theorem C8_checksums_computed_last:
  "let sends = fst (hijack csum port ob addr m)
   in length sends = 3 \<and>
      checksums_valid csum (sent_packet (sends ! 0)) \<and>
      checksums_valid csum (sent_packet (sends ! 1)) \<and>
      checksums_valid csum (sent_packet (sends ! 2))"
  by (simp add: hijack_def Let_def checksums_valid_def CalcChecksums_PACKET_def
      WinDivertHelperCalcChecksums_def clear_checksums_def)

section \<open>C strings\<close>

lemma tolower_NUL [simp]: "tolower NUL = NUL"
  by (simp add: tolower_def NUL_def)

lemma tolower_eq_NUL [simp]: "tolower c = NUL \<longleftrightarrow> c = NUL"
proof
  assume a: "tolower c = NUL"
  show "c = NUL"
  proof (cases "65 \<le> (of_char c :: nat) \<and> (of_char c :: nat) \<le> 90")
    case True
    then have "of_char (tolower c) = (of_char c + 32 :: nat)"
      by (simp add: tolower_def)
    with a True show ?thesis by (simp add: NUL_def)
  next
    case False
    with a show ?thesis by (simp add: tolower_def)
  qed
qed simp

lemma NUL_eq_tolower [simp]: "NUL = tolower c \<longleftrightarrow> c = NUL"
  using tolower_eq_NUL [of c] by (simp only: eq_commute [of NUL])

lemma of_char_diff_0 [simp]: "int (of_char a) - int (of_char b) = 0 \<longleftrightarrow> a = b"
  by auto

lemma stricmp_0_iff:
  "stricmp s1 s2 = 0 \<longleftrightarrow> map tolower (cstr s1) = map tolower (cstr s2)"
proof (induction s1 arbitrary: s2)
  case Nil
  then show ?case
    by (cases s2) (auto simp: cstr_def deref_def)
next
  case (Cons c s1)
  show ?case
  proof (cases s2)
    case Nil
    then show ?thesis
      by (auto simp: cstr_def deref_def Let_def)
  next
    case (Cons d s2')
    with Cons.IH [of s2'] show ?thesis
      by (auto simp: cstr_def deref_def Let_def)
  qed
qed

lemma strnicmp_0_iff:
  "strnicmp s1 s2 n = 0 \<longleftrightarrow> map tolower (cstr (take n s1)) = map tolower (cstr (take n s2))"
proof (induction n arbitrary: s1 s2)
  case 0
  then show ?case by simp
next
  case (Suc n)
  show ?case
  proof (cases s1)
    case s1: Nil
    then show ?thesis
      by (cases s2) (auto simp: cstr_def deref_def Let_def)
  next
    case s1: (Cons a s1')
    show ?thesis
    proof (cases s2)
      case Nil
      with s1 show ?thesis by (auto simp: cstr_def deref_def Let_def)
    next
      case (Cons b s2')
      with s1 Suc.IH [of s1' s2'] show ?thesis
        by (auto simp: cstr_def deref_def Let_def)
    qed
  qed
qed

lemma cstr_append_NUL: "cstr (xs @ NUL # ys) = cstr xs"
  by (induction xs) (simp_all add: cstr_def)

lemma cstr_no_NUL: "NUL \<notin> set s \<Longrightarrow> cstr s = s"
  by (induction s) (auto simp: cstr_def)

lemma NUL_notin_cstr: "NUL \<notin> set (cstr s)"
  unfolding cstr_def using set_takeWhileD by fastforce

lemma cstr_idem [simp]: "cstr (cstr s) = cstr s"
  by (simp add: cstr_def takeWhile_idem)

lemma lower_no_NUL: "map tolower s = map tolower t \<Longrightarrow> NUL \<notin> set t \<Longrightarrow> NUL \<notin> set s"
proof (induction s arbitrary: t)
  case Nil
  then show ?case by simp
next
  case (Cons a s)
  then show ?case by (cases t) auto
qed

section \<open>The classifier\<close>

lemma upt_split3: "n < m \<Longrightarrow> [0..<m] = [0..<n] @ n # [Suc n..<m]"
  by (metis less_imp_le_nat upt_add_eq_append upt_conv_Cons zero_le le_add_diff_inverse plus_nat.add_0)

lemma captured_after_copy:
  assumes "n \<le> 1023" "n \<le> length src"
  shows "cstr (temp_host_ptr ((\<lambda>i. if i < n then src ! i else buf i)(n := NUL))) = cstr (take n src)"
proof -
  let ?b = "(\<lambda>i. if i < n then src ! i else buf i)(n := NUL)"
  have n: "n < sizeof_temp_host" using assms by (simp add: sizeof_temp_host_def)
  have "map ?b [0..<n] = take n src"
    using assms(2) by (intro nth_equalityI) simp_all
  then have "temp_host_ptr ?b = take n src @ NUL # map ?b [Suc n..<sizeof_temp_host]"
    unfolding temp_host_ptr_def upt_split3 [OF n] by simp
  then show ?thesis by (simp add: cstr_append_NUL)
qed

lemma captured_reset: "cstr (temp_host_ptr (buf(0 := NUL))) = []"
proof -
  have "temp_host_ptr (buf(0 := NUL)) = NUL # map (buf(0 := NUL)) [Suc 0..<sizeof_temp_host]"
    unfolding temp_host_ptr_def using upt_split3 [of 0 sizeof_temp_host]
    by (simp add: sizeof_temp_host_def)
  then show ?thesis by (simp add: cstr_def)
qed

lemma callback_Some: "\<exists>st'. callback st e = Some st'"
  by (cases e)
    (auto simp: my_url_callback_def my_header_field_callback_def my_header_value_callback_def
      my_headers_complete_callback_def memcpy_temp_host_def store_temp_host_def
      sizeof_temp_host_def Let_def)

lemma callback_abs:
  "callback st e = Some st' \<Longrightarrow> abs_state st' = scan (abs_state st) [e]"
proof (cases e)
  case (on_header_value s rest)
  assume c: "callback st e = Some st'"
  let ?n = "if length s \<ge> 1024 then 1023 else length s"
  have n: "?n \<le> 1023" "?n \<le> length (s @ rest)" by auto
  have t: "take ?n (s @ rest) = take 1023 s" by auto
  show ?thesis
  proof (cases "temp_is_hostheader st")
    case True
    with c on_header_value
    have "st' = st\<lparr>temp_host := (\<lambda>i. if i < ?n then (s @ rest) ! i else temp_host st i)(?n := NUL),
                  temp_is_hostheader := False\<rparr>"
      by (auto simp: my_header_value_callback_def memcpy_temp_host_def store_temp_host_def
          sizeof_temp_host_def Let_def split: if_splits)
    then have "captured st' = cstr (take ?n (s @ rest))" "temp_is_hostheader st' = False"
      "temp_header_complete st' = temp_header_complete st"
      using captured_after_copy [OF n] by (simp_all add: captured_def)
    with True on_header_value t show ?thesis
      by (simp add: abs_state_def)
  next
    case False
    with c on_header_value show ?thesis
      by (auto simp: my_header_value_callback_def abs_state_def)
  qed
qed (auto simp: my_url_callback_def my_header_field_callback_def
      my_headers_complete_callback_def abs_state_def captured_def split: if_splits)

lemma run_callbacks_abs:
  "\<exists>st'. run_callbacks st es = Some st' \<and> abs_state st' = scan (abs_state st) es"
proof (induction es arbitrary: st)
  case Nil
  then show ?case by simp
next
  case (Cons e es)
  obtain st1 where 1: "callback st e = Some st1"
    using callback_Some by blast
  then have 2: "abs_state st1 = scan (abs_state st) [e]"
    by (rule callback_abs)
  obtain st' where 3: "run_callbacks st1 es = Some st'" "abs_state st' = scan (abs_state st1) es"
    using Cons.IH by blast
  have "scan (scan a [e]) es = scan a (e # es)" for a
    by (cases a; cases e) simp_all
  with 1 2 3 show ?case by simp
qed

lemma Match_abs:
  "\<exists>st'. HttpRequestPayloadMatch parser target_url dat len st =
          Some (verdict target_url (scan (False, False, []) (parser (take (unat len) dat))), st') \<and>
        abs_state st' = scan (False, False, []) (parser (take (unat len) dat))"
proof -
  let ?es = "parser (take (unat len) dat)"
  let ?st0 = "st\<lparr>temp_header_complete := False, temp_is_hostheader := False,
                  temp_host := (temp_host st)(0 := NUL)\<rparr>"
  have a0: "abs_state ?st0 = (False, False, [])"
    by (simp add: abs_state_def captured_def captured_reset)
  obtain st' where r: "run_callbacks ?st0 ?es = Some st'"
    and a: "abs_state st' = scan (False, False, []) ?es"
    using run_callbacks_abs [of ?st0 ?es] a0 by auto
  have v: "verdict target_url (abs_state st') =
      (temp_header_complete st' \<and> stricmp target_url (temp_host_ptr (temp_host st')) = 0)"
    by (simp add: verdict_def abs_state_def captured_def stricmp_0_iff)
  have "HttpRequestPayloadMatch parser target_url dat len st =
      Some (verdict target_url (abs_state st'), st')"
    unfolding v
    by (simp add: HttpRequestPayloadMatch_def http_parser_execute_def store_temp_host_def
        sizeof_temp_host_def r)
  with a show ?thesis by simp
qed

lemma Match_fst:
  "map_option fst (HttpRequestPayloadMatch parser target_url dat len st) =
     Some (verdict target_url (scan (False, False, []) (parser (take (unat len) dat))))"
  using Match_abs [of parser target_url dat len st] by auto

lemma scan_complete: "fst (scan (c, h, v) es) = (c \<or> on_headers_complete \<in> set es)"
proof (induction es arbitrary: c h v)
  case Nil
  then show ?case by simp
next
  case (Cons e es)
  then show ?case by (cases e) auto
qed

lemma scan_append: "scan a (xs @ ys) = scan (scan a xs) ys"
proof (induction xs arbitrary: a)
  case Nil
  then show ?case by simp
next
  case (Cons e xs)
  then show ?case by (cases a; cases e) simp_all
qed

lemma scan_no_host:
  "list_all (\<lambda>e. \<not> sets_is_hostheader e) es \<Longrightarrow> snd (scan (c, False, v) es) = (False, v)"
proof (induction es arbitrary: c)
  case Nil
  then show ?case by simp
next
  case (Cons e es)
  then show ?case by (cases e) simp_all
qed

lemma scan_last_host:
  assumes "sets_is_hostheader (on_header_field f r)"
    and "list_all (\<lambda>e. \<not> sets_is_hostheader e) post"
  shows "snd (scan a (pre @ on_header_field f r # on_header_value w r' # post)) =
           (False, cstr (take 1023 w))"
proof -
  obtain c h v where s: "scan a pre = (c, h, v)"
    by (cases "scan a pre") auto
  have "scan a (pre @ on_header_field f r # on_header_value w r' # post) =
      scan (c, False, cstr (take 1023 w)) post"
    using assms(1) by (simp add: scan_append s)
  then show ?thesis
    using scan_no_host [OF assms(2)] by simp
qed

lemma named_host_sets_flag:
  assumes "map tolower f = ''host''"
  shows "sets_is_hostheader (on_header_field f r)"
proof -
  have l: "map tolower ''host'' = ''host''"
    by (simp add: tolower_def)
  have n: "NUL \<notin> set ''host''"
    by (simp add: NUL_def)
  have len: "length f = 4"
    using arg_cong [OF assms, of length] by simp
  have "NUL \<notin> set f"
    using lower_no_NUL [of f "''host''"] assms l n by simp
  then have "cstr (take 4 (f @ r)) = f"
    using len by (simp add: cstr_no_NUL)
  moreover have "cstr (take 4 ''host'') = ''host''"
    using n by (simp add: cstr_no_NUL)
  ultimately show ?thesis
    using assms l by (simp add: strnicmp_0_iff)
qed








text \<open>
  C4, as stated, at a request with no Host header when the configured target is the
  empty string: the call returns true.
\<close>

theorem C4_counterexample:
  "Host_values ((\<lambda>d. events_no_host) (take (unat (18 :: UINT16)) request_no_host)) = [] \<and>
   map_option fst
     (HttpRequestPayloadMatch (\<lambda>d. events_no_host) [] request_no_host 18 initial_classifier) =
     Some True"
  unfolding Match_fst by code_simp

text \<open>
  C4, amended. The call returns false for every payload in which the last header
  whose name begins with \<open>host\<close> is a Host header whose value, cut at 1023 bytes and at
  its first NUL byte as \<^verbatim>\<open>temp_host\<close> holds it, differs from the target
  case-insensitively; and, when the target is not the empty string, for every payload
  with no header whose name begins with \<open>host\<close>.
\<close>

theorem C4_other_host_or_no_host_is_no_match:
  "(parser (take (unat len) dat) = pre @ on_header_field f r # on_header_value v r' # post \<and>
    map tolower f = ''host'' \<and>
    list_all (\<lambda>e. \<not> sets_is_hostheader e) post \<and>
    map tolower (cstr (take 1023 v)) \<noteq> map tolower (cstr target_url) \<longrightarrow>
    map_option fst (HttpRequestPayloadMatch parser target_url dat len st) = Some False) \<and>
   (list_all (\<lambda>e. \<not> sets_is_hostheader e) (parser (take (unat len) dat)) \<and>
    cstr target_url \<noteq> [] \<longrightarrow>
    map_option fst (HttpRequestPayloadMatch parser target_url dat len st) = Some False)"
proof (intro conjI impI)
  let ?es = "parser (take (unat len) dat)"
  assume h: "?es = pre @ on_header_field f r # on_header_value v r' # post \<and>
    map tolower f = ''host'' \<and>
    list_all (\<lambda>e. \<not> sets_is_hostheader e) post \<and>
    map tolower (cstr (take 1023 v)) \<noteq> map tolower (cstr target_url)"
  from h have es: "?es = pre @ on_header_field f r # on_header_value v r' # post" by blast
  from h have name: "map tolower f = ''host''" by blast
  from h have post: "list_all (\<lambda>e. \<not> sets_is_hostheader e) post" by blast
  from h have ne: "map tolower (cstr (take 1023 v)) \<noteq> map tolower (cstr target_url)" by blast
  have "snd (scan (False, False, []) ?es) = (False, cstr (take 1023 v))"
    unfolding es by (rule scan_last_host [OF named_host_sets_flag [OF name] post])
  then have "snd (snd (scan (False, False, []) ?es)) = cstr (take 1023 v)"
    by simp
  with ne have "\<not> verdict target_url (scan (False, False, []) ?es)"
    by (auto simp: verdict_def)
  then show "map_option fst (HttpRequestPayloadMatch parser target_url dat len st) = Some False"
    by (simp add: Match_fst)
next
  let ?es = "parser (take (unat len) dat)"
  assume h: "list_all (\<lambda>e. \<not> sets_is_hostheader e) ?es \<and> cstr target_url \<noteq> []"
  then have "snd (scan (False, False, []) ?es) = (False, [])"
    using scan_no_host [of ?es False "[]"] by blast
  then have "snd (snd (scan (False, False, []) ?es)) = []"
    by simp
  with h have "\<not> verdict target_url (scan (False, False, []) ?es)"
    by (simp add: verdict_def)
  then show "map_option fst (HttpRequestPayloadMatch parser target_url dat len st) = Some False"
    by (simp add: Match_fst)
qed

theorem C4_witness:
  "((\<lambda>d. events_other) (take (unat (39 :: UINT16)) request_other) =
      [on_url ''/'' ('' HTTP/1.1'' @ [CR, LF] @ ''Host: other.example'' @ [CR, LF, CR, LF])] @
      on_header_field ''Host'' ('': other.example'' @ [CR, LF, CR, LF]) #
      on_header_value ''other.example'' [CR, LF, CR, LF] # [on_headers_complete] \<and>
    map tolower ''Host'' = ''host'' \<and>
    list_all (\<lambda>e. \<not> sets_is_hostheader e) [on_headers_complete] \<and>
    map tolower (cstr (take 1023 ''other.example'')) \<noteq> map tolower (cstr ''blocked.example'')) \<and>
   map_option fst
     (HttpRequestPayloadMatch (\<lambda>d. events_other) ''blocked.example'' request_other 39
        initial_classifier) = Some False \<and>
   (list_all (\<lambda>e. \<not> sets_is_hostheader e)
      ((\<lambda>d. events_no_host) (take (unat (18 :: UINT16)) request_no_host)) \<and>
    cstr ''blocked.example'' \<noteq> []) \<and>
   map_option fst
     (HttpRequestPayloadMatch (\<lambda>d. events_no_host) ''blocked.example'' request_no_host 18
        initial_classifier) = Some False"
proof -
  have h: "map tolower ''Host'' = ''host''"
    "list_all (\<lambda>e. \<not> sets_is_hostheader e) [on_headers_complete]"
    "map tolower (cstr (take 1023 ''other.example'')) \<noteq> map tolower (cstr ''blocked.example'')"
    "list_all (\<lambda>e. \<not> sets_is_hostheader e) events_no_host"
    "cstr ''blocked.example'' \<noteq> []"
    by code_simp+
  have a: "map_option fst
     (HttpRequestPayloadMatch (\<lambda>d. events_other) ''blocked.example'' request_other 39
        initial_classifier) = Some False"
    using h C4_other_host_or_no_host_is_no_match
      [where parser = "\<lambda>d. events_other" and target_url = "''blocked.example''"
        and dat = request_other and len = 39 and st = initial_classifier
        and pre = "[on_url ''/'' ('' HTTP/1.1'' @ [CR, LF] @ ''Host: other.example'' @ [CR, LF, CR, LF])]"
        and f = "''Host''" and r = "'': other.example'' @ [CR, LF, CR, LF]"
        and v = "''other.example''" and r' = "[CR, LF, CR, LF]"
        and post = "[on_headers_complete]"]
    by simp
  have b: "map_option fst
     (HttpRequestPayloadMatch (\<lambda>d. events_no_host) ''blocked.example'' request_no_host 18
        initial_classifier) = Some False"
    using h C4_other_host_or_no_host_is_no_match
      [where parser = "\<lambda>d. events_no_host" and target_url = "''blocked.example''"
        and dat = request_no_host and len = 18 and st = initial_classifier]
    by simp
  show ?thesis
    using h a b by simp
qed

text \<open>
  C5. For every payload on which the headers-complete event never fires, as on every
  truncated payload, the call completes, with no access outside \<^verbatim>\<open>temp_host\<close>, and
  returns false. The number of bytes the parser consumed is never read by the
  program, so it plays no part.
\<close>

theorem C5_truncated_payload_is_no_match:
  "on_headers_complete \<notin> set (parser (take (unat len) dat)) \<Longrightarrow>
   \<exists>st'. HttpRequestPayloadMatch parser target_url dat len st = Some (False, st')"
  using Match_abs [of parser target_url dat len st]
    scan_complete [of False False "[]" "parser (take (unat len) dat)"]
  by (auto simp: verdict_def)

theorem C5_witness:
  "on_headers_complete \<notin> set ((\<lambda>d. events_cut) (take (unat (33 :: UINT16)) request_cut)) \<and>
   (\<exists>st'. HttpRequestPayloadMatch (\<lambda>d. events_cut) ''blocked.example'' request_cut 33
            initial_classifier = Some (False, st'))"
  using C5_truncated_payload_is_no_match
    [of "\<lambda>d. events_cut" 33 request_cut "''blocked.example''" initial_classifier]
  by simp

text \<open>
  C6. The call resets the two flags and empties the captured host before it parses, so
  its result does not depend on the globals it finds: from any state of the globals
  the result is the one obtained from the initial state, and so is the result of a
  call that follows any other call. Every call completes.
\<close>

theorem C6_no_state_carried_over:
  "map_option fst (HttpRequestPayloadMatch parser target_url dat len st) =
     map_option fst (HttpRequestPayloadMatch parser target_url dat len initial_classifier) \<and>
   (case HttpRequestPayloadMatch parser target_url dat1 len1 st of
      None \<Rightarrow> None
    | Some r1 \<Rightarrow> map_option fst (HttpRequestPayloadMatch parser target_url dat len (snd r1))) =
     map_option fst (HttpRequestPayloadMatch parser target_url dat len initial_classifier) \<and>
   HttpRequestPayloadMatch parser target_url dat len st \<noteq> None"
proof -
  have a: "map_option fst (HttpRequestPayloadMatch parser target_url dat len s) =
      Some (verdict target_url (scan (False, False, []) (parser (take (unat len) dat))))" for s
    using Match_abs [of parser target_url dat len s] by auto
  obtain r1 where b: "HttpRequestPayloadMatch parser target_url dat1 len1 st = Some r1"
    using Match_abs [of parser target_url dat1 len1 st] by auto
  have c: "HttpRequestPayloadMatch parser target_url dat len st \<noteq> None"
    using Match_abs [of parser target_url dat len st] by auto
  show ?thesis
    by (simp add: a b c)
qed

text \<open>
  With an empty target, a request whose header block completes and in which no header
  name begins with \<open>host\<close> is a match: nothing is captured, and the empty captured host
  equals the empty target.
\<close>

lemma empty_target_matches_uncaptured:
  assumes "cstr target_url = []"
    and "on_headers_complete \<in> set (parser (take (unat len) dat))"
    and "list_all (\<lambda>e. \<not> sets_is_hostheader e) (parser (take (unat len) dat))"
  shows "map_option fst (HttpRequestPayloadMatch parser target_url dat len st) = Some True"
proof -
  let ?es = "parser (take (unat len) dat)"
  have "snd (scan (False, False, []) ?es) = (False, [])"
    using scan_no_host [OF assms(3)] .
  then have "snd (snd (scan (False, False, []) ?es)) = []"
    by simp
  moreover have "fst (scan (False, False, []) ?es)"
    using scan_complete [of False False "[]" ?es] assms(2) by simp
  ultimately have "verdict target_url (scan (False, False, []) ?es)"
    using assms(1) by (simp add: verdict_def)
  then show ?thesis
    by (simp add: Match_fst)
qed

text \<open>
  C10, at a request whose header block completes with no Host header but with a header
  named \<open>Hostname\<close>, the configured target being the empty string: the field callback
  compares only the first four bytes of the name, the value \<open>x\<close> is captured, and the
  call returns false.
\<close>

theorem C10_hostname_header_is_captured:
  "Host_values ((\<lambda>d. events_hostname) (take (unat (31 :: UINT16)) request_hostname)) = [] \<and>
   on_headers_complete \<in> set ((\<lambda>d. events_hostname) (take (unat (31 :: UINT16)) request_hostname)) \<and>
   map_option fst
     (HttpRequestPayloadMatch (\<lambda>d. events_hostname) [] request_hostname 31 initial_classifier) =
     Some False"
  unfolding Match_fst by code_simp

section \<open>The redirect response\<close>

lemma response_head_plain: "NUL \<notin> set response_head" "length response_head = 77"
  by (simp_all add: response_head_def NUL_def CR_def LF_def)

lemma response_tail_plain: "NUL \<notin> set response_tail" "length response_tail = 62"
  by (simp_all add: response_tail_def NUL_def CR_def LF_def)

lemma build_responseData_Some:
  assumes "strlen argv3 < 1024"
  shows "build_responseData argv3 = Some (response_head @ cstr argv3 @ response_tail)"
proof -
  have h: "cstr response_head = response_head" "cstr response_tail = response_tail"
    by (simp_all add: cstr_no_NUL response_head_plain response_tail_plain)
  have "NUL \<notin> set (response_head @ cstr argv3)"
    using response_head_plain(1) NUL_notin_cstr [of argv3] by simp
  then have 2: "cstr (response_head @ cstr argv3) = response_head @ cstr argv3"
    by (rule cstr_no_NUL)
  have c: "cstr [] = []"
    by (simp add: cstr_def)
  show ?thesis
    using assms
    by (simp add: build_responseData_def strcpy_def strcat_def strlen_def h 2 c cstr_idem
        response_head_plain response_tail_plain)
qed

lemma build_responseData_None:
  "\<not> strlen argv3 < 1024 \<Longrightarrow> build_responseData argv3 = None"
  by (simp add: build_responseData_def strcpy_def)

lemma build_responseData_length:
  assumes "build_responseData argv3 = Some rd"
  shows "strlen argv3 < 1024" "rd = response_head @ cstr argv3 @ response_tail"
    "strlen rd = 139 + strlen argv3" "cstr rd = rd"
proof -
  show l: "strlen argv3 < 1024"
    using assms build_responseData_None [of argv3] by (cases "strlen argv3 < 1024") simp_all
  then show r: "rd = response_head @ cstr argv3 @ response_tail"
    using assms by (simp add: build_responseData_Some)
  have "NUL \<notin> set rd"
    unfolding r using response_head_plain(1) response_tail_plain(1) NUL_notin_cstr [of argv3]
    by simp
  then show c: "cstr rd = rd"
    by (rule cstr_no_NUL)
  show "strlen rd = 139 + strlen argv3"
    unfolding strlen_def c unfolding r
    by (simp add: response_head_plain response_tail_plain)
qed

lemma after_eol_None: "c \<noteq> CR \<Longrightarrow> c \<noteq> LF \<Longrightarrow> after_eol (c # cs) = None"
  by (cases cs) simp_all

lemma http_body_skip:
  "CR \<notin> set xs \<Longrightarrow> LF \<notin> set xs \<Longrightarrow> http_body (xs @ ys) = http_body ys"
  by (induction xs) (auto simp: after_eol_None)

lemma http_head_skip:
  "CR \<notin> set xs \<Longrightarrow> LF \<notin> set xs \<Longrightarrow> http_head (xs @ ys) = xs @ http_head ys"
  by (induction xs) (auto simp: after_eol_None)

lemma text_lines_skip:
  "CR \<notin> set xs \<Longrightarrow> LF \<notin> set xs \<Longrightarrow> text_lines (xs @ CR # LF # ys) = xs # text_lines ys"
proof (induction xs)
  case Nil
  then show ?case by simp
next
  case (Cons x xs)
  then have "text_lines (x # xs @ CR # LF # ys) = cons_line x (text_lines (xs @ CR # LF # ys))"
    by (cases xs) auto
  with Cons show ?case by (simp add: cons_line_def)
qed

lemma text_lines_last: "CR \<notin> set xs \<Longrightarrow> LF \<notin> set xs \<Longrightarrow> text_lines xs = [xs]"
proof (induction xs)
  case Nil
  then show ?case by simp
next
  case (Cons x xs)
  then show ?case by (cases xs) (auto simp: cons_line_def)
qed

lemma http_body_next_line:
  assumes "CR \<notin> set xs" "LF \<notin> set xs" "after_eol zs = None"
  shows "http_body (xs @ CR # LF # zs) = http_body zs"
proof -
  have "http_body (CR # LF # zs) = http_body (LF # zs)"
    using assms(3) by simp
  also have "\<dots> = http_body zs"
    using assms(3) by (cases zs) (simp_all add: CR_def LF_def)
  finally show ?thesis
    by (simp add: http_body_skip [OF assms(1) assms(2)])
qed

lemma http_head_next_line:
  assumes "CR \<notin> set xs" "LF \<notin> set xs" "after_eol zs = None"
  shows "http_head (xs @ CR # LF # zs) = xs @ CR # LF # http_head zs"
proof -
  have "http_head (CR # LF # zs) = CR # http_head (LF # zs)"
    using assms(3) by simp
  also have "http_head (LF # zs) = LF # http_head zs"
    using assms(3) by (cases zs) (simp_all add: CR_def LF_def)
  finally show ?thesis
    by (simp add: http_head_skip [OF assms(1) assms(2)])
qed

lemma response_framing:
  assumes "CR \<notin> set host" "LF \<notin> set host"
  shows "http_body (response_head @ host @ response_tail) = Some ''302''"
    and "text_lines (http_head (response_head @ host @ response_tail)) =
           [''HTTP/1.1 302 Found'', ''Content-Type: text/html; charset=utf-8'',
            ''Location: http://'' @ host, ''Date: Mon, 09 Jul 2018 06:27:33 GMT'',
            ''Content-Length:3'']"
proof -
  let ?l1 = "''HTTP/1.1 302 Found''" and ?l2 = "''Content-Type: text/html; charset=utf-8''"
  let ?l3 = "''Location: http://'' @ host" and ?l4 = "''Date: Mon, 09 Jul 2018 06:27:33 GMT''"
  let ?l5 = "''Content-Length:3''"
  have c: "CR \<notin> set ?l1" "CR \<notin> set ?l2" "CR \<notin> set ?l3" "CR \<notin> set ?l4" "CR \<notin> set ?l5"
    using assms(1) by (simp_all add: CR_def)
  have l: "LF \<notin> set ?l1" "LF \<notin> set ?l2" "LF \<notin> set ?l3" "LF \<notin> set ?l4" "LF \<notin> set ?l5"
    using assms(2) by (simp_all add: LF_def)
  have shape: "response_head @ host @ response_tail =
      ?l1 @ CR # LF # ?l2 @ CR # LF # ?l3 @ CR # LF # ?l4 @ CR # LF # ?l5 @ CR # LF # CR # LF # ''302''"
    by (simp add: response_head_def response_tail_def)
  have t2: "after_eol (?l2 @ ys) = None" for ys
    by (simp add: CR_def LF_def)
  have t3: "after_eol (?l3 @ ys) = None" for ys
    by (simp add: CR_def LF_def)
  have t4: "after_eol (?l4 @ ys) = None" for ys
    by (simp add: CR_def LF_def)
  have t5: "after_eol (?l5 @ ys) = None" for ys
    by (simp add: CR_def LF_def)
  have "http_body (response_head @ host @ response_tail) =
      http_body (?l5 @ CR # LF # CR # LF # ''302'')"
    unfolding shape
    by (simp only: http_body_next_line [OF c(1) l(1) t2] http_body_next_line [OF c(2) l(2) t3]
        http_body_next_line [OF c(3) l(3) t4] http_body_next_line [OF c(4) l(4) t5])
  also have "\<dots> = http_body (CR # LF # CR # LF # ''302'')"
    by (rule http_body_skip [OF c(5) l(5)])
  also have "\<dots> = Some ''302''"
    by simp
  finally show "http_body (response_head @ host @ response_tail) = Some ''302''" .
  have "http_head (response_head @ host @ response_tail) =
      ?l1 @ CR # LF # ?l2 @ CR # LF # ?l3 @ CR # LF # ?l4 @ CR # LF #
      http_head (?l5 @ CR # LF # CR # LF # ''302'')"
    unfolding shape
    by (simp only: http_head_next_line [OF c(1) l(1) t2] http_head_next_line [OF c(2) l(2) t3]
        http_head_next_line [OF c(3) l(3) t4] http_head_next_line [OF c(4) l(4) t5])
  also have "http_head (?l5 @ CR # LF # CR # LF # ''302'') = ?l5"
    by (simp only: http_head_skip [OF c(5) l(5)]) simp
  finally have "http_head (response_head @ host @ response_tail) =
      ?l1 @ CR # LF # ?l2 @ CR # LF # ?l3 @ CR # LF # ?l4 @ CR # LF # ?l5" .
  then show "text_lines (http_head (response_head @ host @ response_tail)) =
      [?l1, ?l2, ?l3, ?l4, ?l5]"
    by (simp only: text_lines_skip [OF c(1) l(1)] text_lines_skip [OF c(2) l(2)]
        text_lines_skip [OF c(3) l(3)] text_lines_skip [OF c(4) l(4)] text_lines_last [OF c(5) l(5)])
qed

lemma Content_Length_3:
  "Content_Length [''HTTP/1.1 302 Found'', ''Content-Type: text/html; charset=utf-8'',
      ''Location: http://'' @ host, ''Date: Mon, 09 Jul 2018 06:27:33 GMT'',
      ''Content-Length:3''] = Some 3"
  by (simp add: Content_Length_def)

text \<open>
  C7, as stated, at two replacement hosts that contain an empty line, \<open>a CR LF CR LF b\<close>
  and \<open>a LF LF b\<close>: the header block of the response ends inside the host, no
  \<open>Content-Length\<close> is declared in it, and the body is not the three bytes \<open>302\<close> but 63
  bytes.
\<close>

theorem C7_counterexample:
  "strlen (''a'' @ [CR, LF, CR, LF] @ ''b'') < 1024 \<and>
   build_responseData (''a'' @ [CR, LF, CR, LF] @ ''b'') =
     Some (response_head @ (''a'' @ [CR, LF, CR, LF] @ ''b'') @ response_tail) \<and>
   http_body (response_head @ (''a'' @ [CR, LF, CR, LF] @ ''b'') @ response_tail) =
     Some (''b'' @ response_tail) \<and>
   length (''b'' @ response_tail) = 63 \<and>
   Content_Length
     (text_lines (http_head (response_head @ (''a'' @ [CR, LF, CR, LF] @ ''b'') @ response_tail))) =
     None \<and>
   build_responseData (''a'' @ [LF, LF] @ ''b'') =
     Some (response_head @ (''a'' @ [LF, LF] @ ''b'') @ response_tail) \<and>
   http_body (response_head @ (''a'' @ [LF, LF] @ ''b'') @ response_tail) =
     Some (''b'' @ response_tail) \<and>
   Content_Length
     (text_lines (http_head (response_head @ (''a'' @ [LF, LF] @ ''b'') @ response_tail))) =
     None"
  by code_simp

text \<open>
  C7, amended. For every replacement host of at most 1023 bytes, as \<^verbatim>\<open>new_host_url\<close>
  can hold, that contains neither a CR nor an LF byte, the empty string included, the
  Redirect template built at start-up carries the response whose header block declares
  \<open>Content-Length\<close> 3 and whose body is exactly the three bytes \<open>302\<close>: the declared
  length is the length of the body.
\<close>

theorem C7_redirect_template_framing:
  "strlen argv3 < 1024 \<and> CR \<notin> set (cstr argv3) \<and> LF \<notin> set (cstr argv3) \<longrightarrow>
   (\<exists>rd. build_responseData argv3 = Some rd \<and>
         rd = response_head @ cstr argv3 @ response_tail \<and>
         data (blockpage (init_main_vars port rd)) = rd \<and>
         text_lines (http_head rd) =
           [''HTTP/1.1 302 Found'', ''Content-Type: text/html; charset=utf-8'',
            ''Location: http://'' @ cstr argv3, ''Date: Mon, 09 Jul 2018 06:27:33 GMT'',
            ''Content-Length:3''] \<and>
         Content_Length (text_lines (http_head rd)) = Some 3 \<and>
         http_body rd = Some ''302'' \<and>
         Content_Length (text_lines (http_head rd)) = map_option length (http_body rd))"
proof
  assume h: "strlen argv3 < 1024 \<and> CR \<notin> set (cstr argv3) \<and> LF \<notin> set (cstr argv3)"
  let ?rd = "response_head @ cstr argv3 @ response_tail"
  from h have b: "build_responseData argv3 = Some ?rd"
    by (simp add: build_responseData_Some)
  from h have no: "CR \<notin> set (cstr argv3)" "LF \<notin> set (cstr argv3)"
    by blast+
  have "NUL \<notin> set ?rd"
    using response_head_plain(1) response_tail_plain(1) NUL_notin_cstr [of argv3] by simp
  then have d: "data (blockpage (init_main_vars port ?rd)) = ?rd"
    by (simp add: init_main_vars_fields cstr_no_NUL)
  note f = response_framing [OF no]
  have cl: "Content_Length (text_lines (http_head ?rd)) = Some 3"
    by (simp only: f(2) Content_Length_3)
  have eq: "Content_Length (text_lines (http_head ?rd)) = map_option length (http_body ?rd)"
    by (simp only: cl f(1)) simp
  show "\<exists>rd. build_responseData argv3 = Some rd \<and>
         rd = response_head @ cstr argv3 @ response_tail \<and>
         data (blockpage (init_main_vars port rd)) = rd \<and>
         text_lines (http_head rd) =
           [''HTTP/1.1 302 Found'', ''Content-Type: text/html; charset=utf-8'',
            ''Location: http://'' @ cstr argv3, ''Date: Mon, 09 Jul 2018 06:27:33 GMT'',
            ''Content-Length:3''] \<and>
         Content_Length (text_lines (http_head rd)) = Some 3 \<and>
         http_body rd = Some ''302'' \<and>
         Content_Length (text_lines (http_head rd)) = map_option length (http_body rd)"
  proof (intro exI conjI)
    show "build_responseData argv3 = Some ?rd" by (rule b)
    show "?rd = response_head @ cstr argv3 @ response_tail" by (rule refl)
    show "data (blockpage (init_main_vars port ?rd)) = ?rd" by (rule d)
    show "text_lines (http_head ?rd) =
           [''HTTP/1.1 302 Found'', ''Content-Type: text/html; charset=utf-8'',
            ''Location: http://'' @ cstr argv3, ''Date: Mon, 09 Jul 2018 06:27:33 GMT'',
            ''Content-Length:3'']" by (rule f(2))
    show "Content_Length (text_lines (http_head ?rd)) = Some 3" by (rule cl)
    show "http_body ?rd = Some ''302''" by (rule f(1))
    show "Content_Length (text_lines (http_head ?rd)) = map_option length (http_body ?rd)"
      by (rule eq)
  qed
qed

theorem C7_witness:
  "(strlen ''www.my_host.com'' < 1024 \<and> CR \<notin> set (cstr ''www.my_host.com'') \<and>
    LF \<notin> set (cstr ''www.my_host.com'')) \<and>
   (\<exists>rd. build_responseData ''www.my_host.com'' = Some rd \<and>
         rd = response_head @ cstr ''www.my_host.com'' @ response_tail \<and>
         data (blockpage (init_main_vars 80 rd)) = rd \<and>
         text_lines (http_head rd) =
           [''HTTP/1.1 302 Found'', ''Content-Type: text/html; charset=utf-8'',
            ''Location: http://'' @ cstr ''www.my_host.com'',
            ''Date: Mon, 09 Jul 2018 06:27:33 GMT'', ''Content-Length:3''] \<and>
         Content_Length (text_lines (http_head rd)) = Some 3 \<and>
         http_body rd = Some ''302'' \<and>
         Content_Length (text_lines (http_head rd)) = map_option length (http_body rd)) \<and>
   (strlen [] < 1024 \<and> CR \<notin> set (cstr []) \<and> LF \<notin> set (cstr [])) \<and>
   (\<exists>rd. build_responseData [] = Some rd \<and>
         rd = response_head @ cstr [] @ response_tail \<and>
         data (blockpage (init_main_vars 80 rd)) = rd \<and>
         text_lines (http_head rd) =
           [''HTTP/1.1 302 Found'', ''Content-Type: text/html; charset=utf-8'',
            ''Location: http://'' @ cstr [], ''Date: Mon, 09 Jul 2018 06:27:33 GMT'',
            ''Content-Length:3''] \<and>
         Content_Length (text_lines (http_head rd)) = Some 3 \<and>
         http_body rd = Some ''302'' \<and>
         Content_Length (text_lines (http_head rd)) = map_option length (http_body rd))"
proof -
  have h1: "strlen ''www.my_host.com'' < 1024 \<and> CR \<notin> set (cstr ''www.my_host.com'') \<and>
      LF \<notin> set (cstr ''www.my_host.com'')"
    by code_simp
  have h2: "strlen [] < 1024 \<and> CR \<notin> set (cstr []) \<and> LF \<notin> set (cstr [])"
    by code_simp
  show ?thesis
    using h1 h2 C7_redirect_template_framing [of "''www.my_host.com''" 80]
      C7_redirect_template_framing [of "[]" 80]
    by blast
qed

lemma len16: "LENGTH(16) = 16"
  by simp

text \<open>
  C9, as stated, on a path whose maximum transmission unit is 576 bytes, with a
  replacement host of 400 bytes: the Redirect of 579 bytes is handed to the transport
  whole, with the two other packets.
\<close>

theorem C9_counterexample:
  "map_option
     (\<lambda>s. (length (fst (hijack (\<lambda>p d. (0, 0)) 80 observed_example outbound (snd s))),
           sent_len (fst (hijack (\<lambda>p d. (0, 0)) 80 observed_example outbound (snd s)) ! 1),
           length (data (sent_packet
             (fst (hijack (\<lambda>p d. (0, 0)) 80 observed_example outbound (snd s)) ! 1)))))
     (startup 80 ''blocked.example'' (replicate 400 (CHR ''a''))) = Some (3, 579, 539) \<and>
   (576 :: nat) < 579"
proof -
  let ?h = "replicate 400 (CHR ''a'')"
  have n: "NUL \<notin> set ?h"
    by (simp add: NUL_def)
  then have c: "cstr ?h = ?h"
    by (rule cstr_no_NUL)
  then have l: "strlen ?h = 400"
    by (simp add: strlen_def)
  let ?rd = "response_head @ ?h @ response_tail"
  have b: "build_responseData ?h = Some ?rd"
    using build_responseData_Some [of ?h] l c by simp
  note r = build_responseData_length [OF b]
  have bl: "blockpage_len (init_main_vars 80 ?rd) = 579"
    by (simp add: init_main_vars_fields r(3) l)
  have d: "data (blockpage (init_main_vars 80 ?rd)) = ?rd"
    by (simp only: init_main_vars_fields r(4))
  have len: "length (fst (hijack csum port ob addr m)) = 3" for csum port ob addr m
    using hijack_sends [of csum port ob addr m] by auto
  have lr: "length ?rd = 539"
    by (simp add: response_head_plain response_tail_plain)
  have t: "strcpy 1024 ''blocked.example'' = Some ''blocked.example''"
    by code_simp
  have s: "startup 80 ''blocked.example'' ?h = Some (''blocked.example'', init_main_vars 80 ?rd)"
    by (simp only: startup_def b t option.case)
  have x: "data (sent_packet (fst (hijack csum port ob addr m) ! 1)) = data (blockpage m)"
    for csum port ob addr m
    using Redirect_fields(7) [of csum port ob addr m] by (simp only: Redirect_sent_def)
  show ?thesis
    by (simp only: s option.map snd_conv len Redirect_sent_ip(4) bl x d lr) simp
qed

text \<open>
  C9, amended. Stamping has no failure and compares no length with a maximum
  transmission unit: for every matched packet and every replacement host the start-up
  accepts, the three packets are handed to the transport, the Redirect as one
  unfragmented packet of 179 bytes plus the length of the host, at most 1202, carrying
  the whole response, between an RST and a FIN of 40 bytes each.
\<close>

theorem C9_no_length_check:
  "build_responseData argv3 = Some rd \<longrightarrow>
   (let m = after_hijacks csum port (init_main_vars port rd) prev;
        sends = fst (hijack csum port ob addr m);
        red = Redirect_sent sends
    in length sends = 3 \<and>
       sent_len (sends ! 0) = 40 \<and>
       sent_len (sends ! 1) = 179 + strlen argv3 \<and>
       sent_len (sends ! 1) \<le> 1202 \<and>
       sent_len (sends ! 2) = 40 \<and>
       data red = rd \<and>
       unat (ntohs (ip_Length (ip (header red)))) = 40 + length (data red) \<and>
       ip_FragOff0 (ip (header red)) = 0)"
proof
  assume b: "build_responseData argv3 = Some rd"
  note r = build_responseData_length [OF b]
  have len: "length (fst (hijack csum port ob addr m)) = 3" for m
    using hijack_sends [of csum port ob addr m] by auto
  have k: "40 + strlen rd = 179 + strlen argv3"
    using r(3) by simp
  have "(179 + strlen argv3) mod 2 ^ 16 = 179 + strlen argv3"
    using r(1) by simp
  then have u: "unat (word_of_nat (179 + strlen argv3) :: 16 word) = 179 + strlen argv3"
    by (simp only: unat_of_nat len16)
  have lr: "length rd = 139 + strlen argv3"
    using r(3) r(4) by (simp add: strlen_def)
  let ?m = "after_hijacks csum port (init_main_vars port rd) prev"
  let ?sends = "fst (hijack csum port ob addr ?m)"
  let ?red = "Redirect_sent ?sends"
  have bl: "blockpage_len ?m = word_of_nat (179 + strlen argv3)"
    by (simp only: after_hijacks_keeps init_main_vars_fields k)
  have s1: "sent_len (?sends ! 1) = 179 + strlen argv3"
    by (simp only: Redirect_sent_ip(4) bl u)
  have d: "data ?red = rd"
    by (simp only: Redirect_fields(7) after_hijacks_keeps init_main_vars_fields r(4))
  have il: "ip_Length (ip (header ?red)) = htons (word_of_nat (179 + strlen argv3))"
    by (simp only: Redirect_sent_ip(1) after_hijacks_keeps_ip init_main_vars_ip k)
  have c1: "length ?sends = 3"
    by (rule len)
  have c2: "sent_len (?sends ! 0) = 40" "sent_len (?sends ! 2) = 40"
    by (rule Redirect_sent_ip(3), rule Redirect_sent_ip(5))
  have c3: "sent_len (?sends ! 1) \<le> 1202"
    unfolding s1 using r(1) by simp
  have c4: "unat (ntohs (ip_Length (ip (header ?red)))) = 40 + length (data ?red)"
    unfolding il d by (simp only: ntohs_htons u lr)
  have c5: "ip_FragOff0 (ip (header ?red)) = 0"
    by (simp only: Redirect_sent_ip(2) after_hijacks_keeps_ip init_main_vars_ip)
  show "let m = after_hijacks csum port (init_main_vars port rd) prev;
        sends = fst (hijack csum port ob addr m);
        red = Redirect_sent sends
    in length sends = 3 \<and>
       sent_len (sends ! 0) = 40 \<and>
       sent_len (sends ! 1) = 179 + strlen argv3 \<and>
       sent_len (sends ! 1) \<le> 1202 \<and>
       sent_len (sends ! 2) = 40 \<and>
       data red = rd \<and>
       unat (ntohs (ip_Length (ip (header red)))) = 40 + length (data red) \<and>
       ip_FragOff0 (ip (header red)) = 0"
    unfolding Let_def
    by (intro conjI) (rule c1 c2 s1 c3 d c4 c5)+
qed

theorem C9_witness:
  "build_responseData ''www.my_host.com'' =
     Some (response_head @ ''www.my_host.com'' @ response_tail) \<and>
   (let m = after_hijacks (\<lambda>p d. (0, 0)) 80
              (init_main_vars 80 (response_head @ ''www.my_host.com'' @ response_tail)) [];
        sends = fst (hijack (\<lambda>p d. (0, 0)) 80 observed_example outbound m);
        red = Redirect_sent sends
    in length sends = 3 \<and>
       sent_len (sends ! 0) = 40 \<and>
       sent_len (sends ! 1) = 179 + strlen ''www.my_host.com'' \<and>
       sent_len (sends ! 1) \<le> 1202 \<and>
       sent_len (sends ! 2) = 40 \<and>
       data red = response_head @ ''www.my_host.com'' @ response_tail \<and>
       unat (ntohs (ip_Length (ip (header red)))) = 40 + length (data red) \<and>
       ip_FragOff0 (ip (header red)) = 0)"
proof -
  have b: "build_responseData ''www.my_host.com'' =
      Some (response_head @ ''www.my_host.com'' @ response_tail)"
    by code_simp
  show ?thesis
    using b C9_no_length_check
      [of "''www.my_host.com''" "response_head @ ''www.my_host.com'' @ response_tail"
        "\<lambda>p d. (0, 0)" 80 "[]" observed_example outbound]
    by blast
qed

section \<open>The main loop\<close>

lemma main_loop_body_matched:
  assumes "ParsePacket packet packet_len = Some ob"
    and "HttpRequestPayloadMatch parser target_url (payload ob) (ucast (payload_len ob)) st =
           Some (True, st')"
  shows "main_loop_body parser csum ParsePacket port target_url (Some (packet, packet_len, addr))
           (m, st) =
         Some (map Forged (fst (hijack csum port ob addr m)), snd (hijack csum port ob addr m), st')"
  using assms by (simp add: main_loop_body_def)

lemma main_loop_body_fail_open:
  assumes "ParsePacket packet packet_len = None"
  shows "main_loop_body parser csum ParsePacket port target_url (Some (packet, packet_len, addr))
           (m, st) = Some ([Reinjected packet packet_len addr], m, st)"
  using assms by (simp add: main_loop_body_def)

end
